theory Spec2Isabelle
  imports Complex_Main "HOL-Library.Char_ord" "HOL-Library.List_Lexorder"
    "HOL-Library.Product_Lexorder" "HOL-Library.Multiset"
begin

section \<open>codemetrics.core: reports over a revision log\<close>

text \<open>
  The functions of \<^verbatim>\<open>src/codemetrics/core.py\<close> work on pandas data frames. A data
  frame is modelled as the list of its rows, in row order. Where a function reads a fixed
  set of columns, a row is a record of those columns; where it is generic in the columns
  (\<^verbatim>\<open>ages\<close>, \<^verbatim>\<open>hot_spots\<close>), a frame carries its column names.
\<close>

subsection \<open>Helpers shared by the reports\<close>

text \<open>
  \<^verbatim>\<open>DataFrame.drop_duplicates()\<close> keeps the first occurrence of every row and the
  order of the rows that stay. Two missing values are equal here.
\<close>

fun drop_duplicates :: "'a list \<Rightarrow> 'a list" where
  "drop_duplicates [] = []"
| "drop_duplicates (x # xs) = x # drop_duplicates (filter (\<lambda>y. y \<noteq> x) xs)"

text \<open>
  \<^verbatim>\<open>df.groupby(key).count()\<close> for one counted column. A missing value is \<open>None\<close>. The rows
  whose key is missing belong to no group; there is one entry per distinct key, ordered by
  key (pandas sorts the group keys); the count of a group is the number of its rows whose
  counted cell is present (\<^verbatim>\<open>count\<close> skips the missing cells).
\<close>

definition groupby_count ::
  "('x \<Rightarrow> 'k::linorder option) \<Rightarrow> ('x \<Rightarrow> bool) \<Rightarrow> 'x list \<Rightarrow> ('k \<times> nat) list" where
  "groupby_count key present xs =
     map (\<lambda>k. (k, length (filter (\<lambda>x. key x = Some k \<and> present x) xs)))
       (sort (remdups (map the (filter (\<lambda>k. k \<noteq> None) (map key xs)))))"

subsection \<open>Mass change sets\<close>

text \<open>
  The columns of the log that \<^verbatim>\<open>get_mass_changesets\<close> reads. The revision and the path
  of a row can be missing (\<open>None\<close>); the message and the author are values of any type,
  compared as wholes. The revisions are ordered because the groups are.
\<close>

record ('r, 'p, 'm, 'a) log_row =
  revision :: "'r option"
  path :: "'p option"
  message :: 'm
  author :: 'a

record ('r, 'm, 'a) massive_row =
  mc_revision :: 'r
  path_count :: nat
  mc_message :: 'm
  mc_author :: 'a

text \<open>
  \<^verbatim>\<open>
  by_rev = log[['revision', 'path']].groupby('revision').count()
  by_rev.rename(columns={'path': 'path_count'}, inplace=True)
  by_rev.reset_index(inplace=True)
  massive = pd.merge(by_rev[by_rev['path_count'] > min_changes],
                     log[['revision', 'message', 'author']].drop_duplicates())
  return massive
  \<close>
  The count of a revision is the number of its rows that have a path. The merge is an inner
  join on the one common column, \<^verbatim>\<open>revision\<close>: every kept row of \<^verbatim>\<open>by_rev\<close>, in order,
  with every distinct triple of that revision.
\<close>

definition by_rev :: "('r::linorder, 'p, 'm, 'a) log_row list \<Rightarrow> ('r \<times> nat) list" where
  "by_rev lg = groupby_count revision (\<lambda>x. path x \<noteq> None) lg"

definition get_mass_changesets ::
  "('r::linorder, 'p, 'm, 'a) log_row list \<Rightarrow> int \<Rightarrow> ('r, 'm, 'a) massive_row list" where
  "get_mass_changesets lg min_changes =
     (let kept = filter (\<lambda>(r, c). int c > min_changes) (by_rev lg);
          triples = drop_duplicates (map (\<lambda>x. (revision x, message x, author x)) lg)
      in concat (map (\<lambda>(r, c).
            map (\<lambda>(r', m, a). \<lparr>mc_revision = r, path_count = c, mc_message = m, mc_author = a\<rparr>)
              (filter (\<lambda>(r', m, a). r' = Some r) triples)) kept))"

text \<open>
  The number of log rows of one revision, and the number of those that have a path: the
  code's \<^verbatim>\<open>path_count\<close>.
\<close>

definition rows_of_revision :: "('r, 'p, 'm, 'a) log_row list \<Rightarrow> 'r \<Rightarrow> nat" where
  "rows_of_revision lg r = length (filter (\<lambda>x. revision x = Some r) lg)"

definition paths_of_revision :: "('r, 'p, 'm, 'a) log_row list \<Rightarrow> 'r \<Rightarrow> nat" where
  "paths_of_revision lg r = length (filter (\<lambda>x. revision x = Some r \<and> path x \<noteq> None) lg)"

text \<open>
  The log of the test fixture (\<^verbatim>\<open>SimpleRepositoryFixture.get_log_df\<close>), restricted to
  the columns read here, and a log of one revision with two rows, one of them without a
  path.
\<close>

definition fixture_log :: "(nat, string, string, string) log_row list" where
  "fixture_log =
     [\<lparr>revision = Some 1016, path = Some ''stats.py'', message = ''modified again'',
         author = ''elmotec''\<rparr>,
      \<lparr>revision = Some 1018, path = Some ''stats.py'', message = ''modified'',
         author = ''elmotec''\<rparr>,
      \<lparr>revision = Some 1018, path = Some ''requirements.txt'', message = ''modified'',
         author = ''elmotec''\<rparr>]"

definition pathless_log :: "(nat, string, string, string) log_row list" where
  "pathless_log =
     [\<lparr>revision = Some 1, path = None, message = ''tagged'', author = ''elmotec''\<rparr>,
      \<lparr>revision = Some 1, path = Some ''a.py'', message = ''tagged'', author = ''elmotec''\<rparr>]"

subsection \<open>Co-changes\<close>

text \<open>
  A row of the report: the columns \<^verbatim>\<open>primary\<close>, \<^verbatim>\<open>secondary\<close>,
  \<^verbatim>\<open>on + '_cochanges'\<close>, \<^verbatim>\<open>on + '_changes'\<close> and \<^verbatim>\<open>coupling\<close>. The coupling is a
  float and can be missing (\<^verbatim>\<open>NaN\<close>, here \<open>None\<close>).
\<close>

record ('p) co_row =
  primary :: 'p
  secondary :: 'p
  cochanges :: nat
  changes :: nat
  coupling :: "real option"

text \<open>
  \<^verbatim>\<open>pd.merge(df, df, on=on)\<close> on a frame of two columns \<^verbatim>\<open>on\<close>, \<^verbatim>\<open>by\<close>: every row
  with every row of the same \<^verbatim>\<open>on\<close> value, as columns \<^verbatim>\<open>on\<close>, \<^verbatim>\<open>by_x\<close>,
  \<^verbatim>\<open>by_y\<close>; the two last are then renamed \<^verbatim>\<open>primary\<close> and \<^verbatim>\<open>secondary\<close>. The merge
  joins two missing \<^verbatim>\<open>on\<close> values as it joins two equal ones.
\<close>

definition self_join :: "('o \<times> 'p) list \<Rightarrow> ('o \<times> 'p \<times> 'p) list" where
  "self_join df = concat (map (\<lambda>(u, p). map (\<lambda>(u', s). (u, p, s)) (filter (\<lambda>(u', s). u' = u) df)) df)"

text \<open>The key of a row of the self-join in the grouping by primary and secondary.\<close>

fun pair_key :: "'o \<times> 'p option \<times> 'p option \<Rightarrow> ('p \<times> 'p) option" where
  "pair_key (u, Some p, Some s) = Some (p, s)"
| "pair_key (u, p, s) = None"

text \<open>
  The caller names two columns of the log: \<^verbatim>\<open>by\<close> (\<^verbatim>\<open>'path'\<close> when \<^verbatim>\<open>None\<close>) and
  \<^verbatim>\<open>on\<close> (\<^verbatim>\<open>'revision'\<close> when \<^verbatim>\<open>None\<close>). A column name is modelled as the function
  that reads the column in a row, so the defaults are the selectors \<^term>\<open>path\<close> and
  \<^term>\<open>revision\<close>. A value of either column can be missing (\<open>None\<close>).
  \<^verbatim>\<open>
  df = log[[on, by]].drop_duplicates()
  sj = pd.merge(df, df, on=on)
  sj = sj.rename(columns={by + '_x': 'primary', by + '_y': 'secondary'})
  sj.drop_duplicates(inplace=True)  # FIXME: needs a test
  sj = sj.groupby(['primary', 'secondary']).count().reset_index()
  \<close>
  The count of a group is held in the one remaining column \<^verbatim>\<open>on\<close>: it is the number of
  rows of the group whose \<^verbatim>\<open>on\<close> value is present.
\<close>

definition pair_counts ::
  "'row list \<Rightarrow> ('row \<Rightarrow> 'p::linorder option) \<Rightarrow> ('row \<Rightarrow> 'o option)
     \<Rightarrow> (('p \<times> 'p) \<times> nat) list" where
  "pair_counts lg by on =
     (let df = drop_duplicates (map (\<lambda>x. (on x, by x)) lg);
          sj = drop_duplicates (self_join df)
      in groupby_count pair_key (\<lambda>(u, p, s). u \<noteq> None) sj)"

text \<open>
  \<^verbatim>\<open>
  result = pd.merge(sj[sj['primary'] == sj['secondary']][['primary', on]],
                    sj[sj['primary'] != sj['secondary']],
                    on='primary', suffixes=['_changes', '_cochanges'])
  result['coupling'] = result[on + '_cochanges'] / result[on + '_changes']
  return result[['primary', 'secondary', on + '_cochanges',
                 on + '_changes', 'coupling']]
    .sort_values(by='coupling', ascending=False)
  \<close>
  The division is pandas' division of two integer columns, which gives a float and never
  raises: \<^verbatim>\<open>0 / 0\<close> is missing. (A positive count is never divided by 0: the cochanges of
  a row are at most its changes.) The quotient is modelled as a real number. The final
  sort is modelled as a stable sort by descending coupling, the missing couplings last;
  pandas does not fix the order of rows of equal coupling.
\<close>

definition divide_counts :: "nat \<Rightarrow> nat \<Rightarrow> real option" where
  "divide_counts co ch = (if ch = 0 then None else Some (real co / real ch))"

definition coupling_key :: "'p co_row \<Rightarrow> nat \<times> real" where
  "coupling_key r = (case coupling r of Some c \<Rightarrow> (0, - c) | None \<Rightarrow> (1, 0))"

definition co_changes ::
  "'row list \<Rightarrow> ('row \<Rightarrow> 'p::linorder option) \<Rightarrow> ('row \<Rightarrow> 'o option) \<Rightarrow> 'p co_row list" where
  "co_changes lg by on =
     (let sj = pair_counts lg by on;
          result = concat (map (\<lambda>((p, _), ch).
              map (\<lambda>((_, s), co).
                  \<lparr>primary = p, secondary = s, cochanges = co, changes = ch,
                    coupling = divide_counts co ch\<rparr>)
                (filter (\<lambda>((p', s), _). p' \<noteq> s \<and> p' = p) sj))
            (filter (\<lambda>((p, s), _). p = s) sj))
      in sort_key coupling_key result)"

text \<open>
  The grouping units (present values of \<^verbatim>\<open>on\<close>) in which a value \<open>p\<close> of the column
  \<^verbatim>\<open>by\<close> occurs in the log, and whether two values occur in one unit, a unit without
  \<^verbatim>\<open>on\<close> value included.
\<close>

definition units_of ::
  "'row list \<Rightarrow> ('row \<Rightarrow> 'p option) \<Rightarrow> ('row \<Rightarrow> 'o option) \<Rightarrow> 'p \<Rightarrow> 'o set" where
  "units_of lg by on p = {u. \<exists>x \<in> set lg. on x = Some u \<and> by x = Some p}"

definition share_unit ::
  "'row list \<Rightarrow> ('row \<Rightarrow> 'p option) \<Rightarrow> ('row \<Rightarrow> 'o option) \<Rightarrow> 'p \<Rightarrow> 'p \<Rightarrow> bool" where
  "share_unit lg by on p s \<longleftrightarrow>
     (\<exists>x \<in> set lg. \<exists>y \<in> set lg. by x = Some p \<and> by y = Some s \<and> on x = on y)"

text \<open>
  Two logs in which revisions are missing: two paths in rows without revision, and the
  same with one more row, of the first path in revision 7.
\<close>

definition unrevisioned_log :: "(nat, string, string, string) log_row list" where
  "unrevisioned_log =
     [\<lparr>revision = None, path = Some ''a'', message = ''m'', author = ''e''\<rparr>,
      \<lparr>revision = None, path = Some ''b'', message = ''m'', author = ''e''\<rparr>]"

definition mixed_log :: "(nat, string, string, string) log_row list" where
  "mixed_log =
     [\<lparr>revision = Some 7, path = Some ''a'', message = ''m'', author = ''e''\<rparr>,
      \<lparr>revision = None, path = Some ''a'', message = ''m'', author = ''e''\<rparr>,
      \<lparr>revision = None, path = Some ''b'', message = ''m'', author = ''e''\<rparr>]"

subsection \<open>Errors\<close>

text \<open>The exceptions that Python and pandas raise in the functions below.\<close>

datatype error = KeyError | ValueError | TypeError | AttributeError | ZeroDivisionError

subsection \<open>Component names\<close>

text \<open>\<^verbatim>\<open>sep.join(xs)\<close> of Python.\<close>

fun join :: "string \<Rightarrow> string list \<Rightarrow> string" where
  "join sep [] = []"
| "join sep [x] = x"
| "join sep (x # y # ys) = x @ sep @ join sep (y # ys)"

text \<open>
  The inner function of \<^verbatim>\<open>guess_components\<close>. The vectorizer and the clustering are
  scikit-learn's; the function reads the vectorizer's feature names and one cluster center,
  the weights of the features in the order of the names. The argument \<open>vectorizer\<close> is the
  list \<^verbatim>\<open>vectorizer.get_feature_names()\<close>. The weights of a center are finite floats
  (means of tf-idf values); they are modelled as the real numbers they denote, and so is
  the threshold.
  \<^verbatim>\<open>
  def __cluster_name(center, vectorizer, n_clusters, threshold):
      df = pd.DataFrame(data={'feature': vectorizer.get_feature_names(),
                              'weight': center})
      df.sort_values(by=['weight', 'feature'], ascending=False, inplace=True)
      if (df['weight'] <= threshold).all():
          return ''
      df = df[df['weight'] > threshold]
      return '.'.join(df['feature'].tolist())
  \<close>
  A frame built from two columns of different lengths raises \<^verbatim>\<open>ValueError\<close>. The sort is
  by the pair (weight, feature), both descending.
\<close>

definition cluster_name ::
  "real list \<Rightarrow> string list \<Rightarrow> nat \<Rightarrow> real \<Rightarrow> error + string" where
  "cluster_name center vectorizer n_clusters threshold =
     (if length vectorizer \<noteq> length center then Inl ValueError
      else
        let df = zip vectorizer center;
            df = rev (sort_key (\<lambda>(feature, weight). (weight, feature)) df)
        in if list_all (\<lambda>(feature, weight). weight \<le> threshold) df then Inr ''''
           else let df = filter (\<lambda>(feature, weight). weight > threshold) df
                in Inr (join ''.'' (map fst df)))"

text \<open>
  \<^verbatim>\<open>
  cluster_names = [__cluster_name(center, vectorizer, n_clusters, 0.4)
                   for center in clustering.cluster_centers_]
  \<close>
  The literal \<^verbatim>\<open>0.4\<close> is a float: the multiple of \<open>2 ^ -54\<close> nearest to 4/10, which is
  \<open>3602879701896397 / 2 ^ 53\<close>, a little more than 4/10.
\<close>

definition cluster_names ::
  "string list \<Rightarrow> real list list \<Rightarrow> nat \<Rightarrow> (error + string) list" where
  "cluster_names vectorizer cluster_centers n_clusters =
     map (\<lambda>center. cluster_name center vectorizer n_clusters
            (3602879701896397 / 9007199254740992)) cluster_centers"

text \<open>
  The naming rule in the words of the specification, to compare with the code: a feature
  ranks before another when its weight is greater, or the weights are equal and its name is
  not smaller; the features are ranked, those of weight greater than 0.4 are kept, and the
  name is the empty string when none is kept, else the kept names joined with a dot: the
  first name, and every further name after a dot. The number 0.4 of the specification is
  read as the float of that name, \<open>float_0_4\<close>.
\<close>

definition float_0_4 :: real where
  "float_0_4 = 7205759403792794 / 2 ^ 54"

fun dotted :: "string list \<Rightarrow> string" where
  "dotted [] = []"
| "dotted (x # xs) = x @ concat (map (\<lambda>y. CHR ''.'' # y) xs)"

definition ranks_before :: "string \<times> real \<Rightarrow> string \<times> real \<Rightarrow> bool" where
  "ranks_before a b \<longleftrightarrow> snd a > snd b \<or> (snd a = snd b \<and> fst a \<ge> fst b)"

fun rank_insert :: "string \<times> real \<Rightarrow> (string \<times> real) list \<Rightarrow> (string \<times> real) list" where
  "rank_insert a [] = [a]"
| "rank_insert a (b # bs) = (if ranks_before a b then a # b # bs else b # rank_insert a bs)"

definition rank_features :: "(string \<times> real) list \<Rightarrow> (string \<times> real) list" where
  "rank_features xs = foldr rank_insert xs []"

definition spec_cluster_name :: "string list \<Rightarrow> real list \<Rightarrow> string" where
  "spec_cluster_name features center =
     (let kept = filter (\<lambda>(f, w). w > float_0_4) (rank_features (zip features center))
      in if kept = [] then '''' else dotted (map fst kept))"

definition rank_key :: "string \<times> real \<Rightarrow> real \<times> string" where
  "rank_key = (\<lambda>(feature, weight). (weight, feature))"

subsection \<open>Data frames with named columns\<close>

text \<open>
  A cell of a frame is a missing value (\<^verbatim>\<open>NaN\<close>, \<^verbatim>\<open>NaT\<close>, \<^verbatim>\<open>None\<close>), a number, a string or
  a timestamp. Numbers are finite and the arithmetic on them is exact: the rounding and
  the overflow of floats are not modelled. A timestamp is a count of nanoseconds since the
  epoch, with a flag that is true when the timestamp is timezone-aware (the count is then
  in UTC).

  A frame is the list of its columns, each a name with the cells of the column. pandas
  keeps the columns of a frame at one length and, in the frames read here, under distinct
  names: \<open>wf_frame\<close>.
\<close>

datatype cell = NaN | Num real | Str string | Stamp int bool

type_synonym frame = "(string \<times> cell list) list"

definition columns :: "frame \<Rightarrow> string list" where
  "columns df = map fst df"

definition nrows :: "frame \<Rightarrow> nat" where
  "nrows df = (case df of [] \<Rightarrow> 0 | (c, vs) # _ \<Rightarrow> length vs)"

definition wf_frame :: "frame \<Rightarrow> bool" where
  "wf_frame df \<longleftrightarrow> distinct (columns df) \<and> list_all (\<lambda>(c, vs). length vs = nrows df) df"

text \<open>\<^verbatim>\<open>df[c]\<close> for a column that the frame has.\<close>

definition column :: "frame \<Rightarrow> string \<Rightarrow> cell list" where
  "column df c = (case map_of df c of Some vs \<Rightarrow> vs | None \<Rightarrow> [])"

text \<open>\<^verbatim>\<open>df[names]\<close>: the named columns in the order of the names, or \<^verbatim>\<open>KeyError\<close>.\<close>

definition select :: "frame \<Rightarrow> string list \<Rightarrow> error + frame" where
  "select df names =
     (if set names \<subseteq> set (columns df) then Inr (map (\<lambda>c. (c, column df c)) names)
      else Inl KeyError)"

text \<open>The rows of a frame, and the frame of given column names and rows.\<close>

definition rows_of :: "frame \<Rightarrow> cell list list" where
  "rows_of df = map (\<lambda>i. map (\<lambda>(c, vs). vs ! i) df) [0..<nrows df]"

definition of_rows :: "string list \<Rightarrow> cell list list \<Rightarrow> frame" where
  "of_rows names rs = map (\<lambda>(j, c). (c, map (\<lambda>r. r ! j) rs)) (enumerate 0 names)"

text \<open>
  \<^verbatim>\<open>df[c] = vs\<close>: the column is replaced where it stands when the frame has it, and
  added last otherwise.
\<close>

fun assign :: "frame \<Rightarrow> string \<Rightarrow> cell list \<Rightarrow> frame" where
  "assign [] c vs = [(c, vs)]"
| "assign ((c', vs') # df) c vs =
     (if c' = c then (c, vs) # df else (c', vs') # assign df c vs)"

text \<open>\<^verbatim>\<open>df.drop(columns=names)\<close> for columns that the frame has.\<close>

definition drop_columns :: "frame \<Rightarrow> string list \<Rightarrow> frame" where
  "drop_columns df names = filter (\<lambda>(c, vs). c \<notin> set names) df"

text \<open>\<^verbatim>\<open>fillna(v)\<close> on one cell.\<close>

definition fillna :: "cell \<Rightarrow> cell \<Rightarrow> cell" where
  "fillna v c = (case c of NaN \<Rightarrow> v | _ \<Rightarrow> c)"


subsection \<open>Ages\<close>




text \<open>
  The \<^verbatim>\<open>date\<close> column is read as it is in the log: timestamps, or the strings or numbers
  that stand for dates in a log that was not parsed. The order of two values of one kind
  is that of Python: timestamps by time, numbers by value, strings lexicographically.
  Values of two kinds, and a timezone-aware and a timezone-naive timestamp, cannot be
  compared.
\<close>

fun date_le :: "cell \<Rightarrow> cell \<Rightarrow> bool" where
  "date_le (Stamp t a) (Stamp t' a') \<longleftrightarrow> t \<le> t'"
| "date_le (Num r) (Num r') \<longleftrightarrow> r \<le> r'"
| "date_le (Str s) (Str s') \<longleftrightarrow> s \<le> s'"
| "date_le d d' \<longleftrightarrow> False"



text \<open>The greater of two values; a missing value is skipped.\<close>

fun date_max :: "cell \<Rightarrow> cell \<Rightarrow> cell" where
  "date_max NaN d' = d'"
| "date_max d NaN = d"
| "date_max d d' = (if date_le d d' then d' else d)"

definition latest :: "cell list \<Rightarrow> cell" where
  "latest ds = foldr date_max ds NaN"


















subsection \<open>Hot spots\<close>

text \<open>\<^verbatim>\<open>df.rename(columns={old: new})\<close>; a frame without the column is left as it is.\<close>

definition rename_column :: "frame \<Rightarrow> string \<Rightarrow> string \<Rightarrow> frame" where
  "rename_column df old new = map (\<lambda>(c, vs). (if c = old then new else c, vs)) df"

text \<open>
  \<^verbatim>\<open>Series.value_counts()\<close>: the distinct values that are not missing, each with the
  number of its occurrences, by descending count.
\<close>

definition value_counts :: "cell list \<Rightarrow> (cell \<times> nat) list" where
  "value_counts vs =
     (let present = filter (\<lambda>v. v \<noteq> NaN) vs
      in sort_key (\<lambda>(v, n). - int n)
           (map (\<lambda>v. (v, length (filter (\<lambda>x. x = v) present))) (drop_duplicates present)))"

text \<open>
  \<^verbatim>\<open>log[columns].drop_duplicates()[by].value_counts()\<close> on the selection \<^verbatim>\<open>log[columns]\<close>,
  whose last column is \<^verbatim>\<open>by\<close>.
\<close>

definition change_counts :: "frame \<Rightarrow> (cell \<times> nat) list" where
  "change_counts sel = value_counts (map last (drop_duplicates (rows_of sel)))"

text \<open>
  \<^verbatim>\<open>pd.merge(c_df, ch_df, right_index=True, left_on=by, how='outer')\<close>, where \<^verbatim>\<open>ch_df\<close>
  has the one column \<^verbatim>\<open>changes\<close> and the values of \<^verbatim>\<open>by\<close> as its index. Every row of
  \<^verbatim>\<open>c_df\<close> gets the count of its \<^verbatim>\<open>by\<close> value, or a missing value; every value of the
  index that \<^verbatim>\<open>c_df\<close> does not have gives one more row, with that value in the column
  \<^verbatim>\<open>by\<close> and missing values in the other columns of \<^verbatim>\<open>c_df\<close>. The model puts the rows
  of \<^verbatim>\<open>c_df\<close> first; the order of the rows of an outer merge depends on the version of
  pandas.
\<close>

definition merge_outer :: "frame \<Rightarrow> string \<Rightarrow> (cell \<times> nat) list \<Rightarrow> frame" where
  "merge_outer c_df by ch_df =
     (let keys = column c_df by;
          extra = filter (\<lambda>(v, n). v \<notin> set keys) ch_df;
          changes = map (\<lambda>k. case map_of ch_df k of Some n \<Rightarrow> Num (real n) | None \<Rightarrow> NaN) keys
      in map (\<lambda>(c, vs).
              (c, vs @ (if c = by then map fst extra else replicate (length extra) NaN))) c_df
         @ [(''changes'', changes @ map (\<lambda>(v, n). Num (real n)) extra)])"

text \<open>
  \<^verbatim>\<open>astype('float')\<close> on a cell. A string raises \<^verbatim>\<open>ValueError\<close> (the strings that Python
  reads as numbers are not modelled), a timestamp \<^verbatim>\<open>TypeError\<close>.
\<close>

fun astype_float :: "cell \<Rightarrow> error + cell" where
  "astype_float NaN = Inr NaN"
| "astype_float (Num r) = Inr (Num r)"
| "astype_float (Str s) = Inl ValueError"
| "astype_float (Stamp t a) = Inl TypeError"

text \<open>The first error of a list of results, or all the values.\<close>

fun collect :: "(error + 'a) list \<Rightarrow> error + 'a list" where
  "collect [] = Inr []"
| "collect (Inl e # xs) = Inl e"
| "collect (Inr x # xs) = (case collect xs of Inl e \<Rightarrow> Inl e | Inr ys \<Rightarrow> Inr (x # ys))"

text \<open>
  The minimum and the maximum of a float column (missing values are skipped; a column
  without a number has a missing minimum), and the arithmetic of pandas on float cells. A
  missing operand gives a missing result. Division by zero does not raise: \<^verbatim>\<open>0 / 0\<close> is
  missing. (pandas gives an infinity for \<^verbatim>\<open>x / 0\<close> with \<^verbatim>\<open>x\<close> not 0; in
  \<^verbatim>\<open>compute_score\<close> the divisor is the maximum of the column that holds the dividend, and
  the column is not negative, so that a zero divisor comes with zero dividends only:
  lemma \<open>score_column_zero_divisor\<close>.)
\<close>

fun nums :: "cell list \<Rightarrow> real list" where
  "nums [] = []"
| "nums (Num r # cs) = r # nums cs"
| "nums (c # cs) = nums cs"

definition col_min :: "cell list \<Rightarrow> cell" where
  "col_min vs = (if nums vs = [] then NaN else Num (Min (set (nums vs))))"

definition col_max :: "cell list \<Rightarrow> cell" where
  "col_max vs = (if nums vs = [] then NaN else Num (Max (set (nums vs))))"

fun sub_cell :: "cell \<Rightarrow> cell \<Rightarrow> cell" where
  "sub_cell (Num x) (Num y) = Num (x - y)"
| "sub_cell c d = NaN"

fun div_cell :: "cell \<Rightarrow> cell \<Rightarrow> cell" where
  "div_cell (Num x) (Num y) = (if y = 0 then NaN else Num (x / y))"
| "div_cell c d = NaN"

fun square_cell :: "cell \<Rightarrow> cell" where
  "square_cell (Num x) = Num (x ^ 2)"
| "square_cell c = NaN"

text \<open>\<^verbatim>\<open>sum(axis=1)\<close> over two columns: missing values count as 0.\<close>

fun sum_cells :: "cell \<Rightarrow> cell \<Rightarrow> cell" where
  "sum_cells (Num x) (Num y) = Num (x + y)"
| "sum_cells (Num x) c = Num x"
| "sum_cells c (Num y) = Num y"
| "sum_cells c d = Num 0"

text \<open>
  \<^verbatim>\<open>
  def compute_score(input_df):
      df = input_df.astype('float').copy()
      df.fillna(0.0, inplace=True)
      df -= df.min(axis=0)
      df /= df.max(axis=0)
      df.fillna(0.0, inplace=True)
      df = df ** 2
      return df
  \<close>
  Each column is scaled with its own minimum and maximum.
\<close>

definition score_column :: "cell list \<Rightarrow> cell list" where
  "score_column vs =
     (let df = map (fillna (Num 0)) vs;
          df = map (\<lambda>c. sub_cell c (col_min df)) df;
          df = map (\<lambda>c. div_cell c (col_max df)) df;
          df = map (fillna (Num 0)) df
      in map square_cell df)"

definition compute_score :: "frame \<Rightarrow> error + frame" where
  "compute_score input_df =
     (case collect (map (\<lambda>(c, vs). case collect (map astype_float vs) of
                             Inl e \<Rightarrow> Inl e | Inr ws \<Rightarrow> Inr (c, ws)) input_df) of
        Inl e \<Rightarrow> Inl e
      | Inr df \<Rightarrow> Inr (map (\<lambda>(c, vs). (c, score_column vs)) df))"

text \<open>
  \<^verbatim>\<open>
  def hot_spots(log, loc, by=None, count_one_change_per=None):
      if by is None:
          by = 'path'
      if count_one_change_per is None:
          count_one_change_per = ['revision']
      c_df = loc.copy()
      c_df = c_df.rename(columns={'code': 'complexity'})
      columns = count_one_change_per + [by]
      ch_df = log[columns].drop_duplicates()[by].value_counts().to_frame('changes')
      df = pd.merge(c_df, ch_df, right_index=True, left_on=by, how='outer').fillna(0.0)
      df[['complexity_score', 'changes_score']] = compute_score(df[['complexity', 'changes']])
      df['score'] = df[['complexity_score', 'changes_score']].sum(axis=1)
      return df
  \<close>
  The errors: \<^verbatim>\<open>KeyError\<close> when the log misses one of the columns, when \<^verbatim>\<open>c_df\<close> has
  no column \<^verbatim>\<open>by\<close> or no column \<^verbatim>\<open>complexity\<close>, or has a column \<^verbatim>\<open>changes\<close> already
  (the merge then renames both \<^verbatim>\<open>changes\<close> columns); \<^verbatim>\<open>AttributeError\<close> when \<^verbatim>\<open>by\<close> is
  also one of \<^verbatim>\<open>count_one_change_per\<close> (the selection \<^verbatim>\<open>[by]\<close> is then a frame, which
  has no \<^verbatim>\<open>value_counts\<close>); \<^verbatim>\<open>ValueError\<close> when the renaming gives \<^verbatim>\<open>c_df\<close> two columns
  \<^verbatim>\<open>complexity\<close> (three score columns are then assigned to two names); the errors of
  \<^verbatim>\<open>astype\<close>.
\<close>

definition hot_spots ::
  "frame \<Rightarrow> frame \<Rightarrow> string option \<Rightarrow> string list option \<Rightarrow> error + frame" where
  "hot_spots lg loc by count_one_change_per =
     (let by = (case by of None \<Rightarrow> ''path'' | Some b \<Rightarrow> b);
          count_one_change_per =
            (case count_one_change_per of None \<Rightarrow> [''revision''] | Some l \<Rightarrow> l);
          c_df = rename_column loc ''code'' ''complexity'';
          cols = count_one_change_per @ [by]
      in case select lg cols of
           Inl e \<Rightarrow> Inl e
         | Inr sel \<Rightarrow>
             if by \<in> set count_one_change_per then Inl AttributeError
             else
               let ch_df = change_counts sel in
               if by \<notin> set (columns c_df) then Inl KeyError
               else
                 let df = map (\<lambda>(c, vs). (c, map (fillna (Num 0)) vs))
                            (merge_outer c_df by ch_df)
                 in if ''changes'' \<in> set (columns c_df) then Inl KeyError
                    else if \<not> distinct (columns c_df) then Inl ValueError
                    else
                      case select df [''complexity'', ''changes''] of
                        Inl e \<Rightarrow> Inl e
                      | Inr input_df \<Rightarrow>
                          (case compute_score input_df of
                             Inl e \<Rightarrow> Inl e
                           | Inr sc \<Rightarrow>
                               let df = assign df ''complexity_score'' (column sc ''complexity'');
                                   df = assign df ''changes_score'' (column sc ''changes'');
                                   df = assign df ''score''
                                          (map2 sum_cells (column df ''complexity_score'')
                                             (column df ''changes_score''))
                               in Inr df))"

text \<open>
  The size table of the test fixture (\<^verbatim>\<open>get_loc_df\<close>), the table of its first row alone,
  and the \<^verbatim>\<open>revision\<close> and \<^verbatim>\<open>path\<close> columns of the fixture log.
\<close>

definition fixture_loc :: frame where
  "fixture_loc =
     [(''language'', [Str ''Python'', Str ''Unknown'']),
      (''path'', [Str ''stats.py'', Str ''requirements.txt'']),
      (''blank'', [Num 28, Num 0]),
      (''comment'', [Num 84, Num 0]),
      (''code'', [Num 100, Num 3])]"

definition stats_loc :: frame where
  "stats_loc =
     [(''language'', [Str ''Python'']),
      (''path'', [Str ''stats.py'']),
      (''blank'', [Num 28]),
      (''comment'', [Num 84]),
      (''code'', [Num 100])]"

definition fixture_changes :: frame where
  "fixture_changes =
     [(''revision'', [Num 1016, Num 1018, Num 1018]),
      (''path'', [Str ''stats.py'', Str ''stats.py'', Str ''requirements.txt''])]"

text \<open>
  To state what \<^verbatim>\<open>hot_spots\<close> returns: the number in a float cell after
  \<^verbatim>\<open>fillna(0.0)\<close>, the min-max scaling of a column of numbers followed by squaring, with
  0 for a column whose minimum is its maximum, and the merged and filled frame on which the
  scores are computed.
\<close>

fun num0 :: "cell \<Rightarrow> real" where
  "num0 (Num r) = r"
| "num0 c = 0"

fun is_float :: "cell \<Rightarrow> bool" where
  "is_float NaN = True"
| "is_float (Num r) = True"
| "is_float c = False"

definition scaled :: "real list \<Rightarrow> real list" where
  "scaled xs =
     map (\<lambda>x. if Max (set xs) = Min (set xs) then 0
              else ((x - Min (set xs)) / (Max (set xs) - Min (set xs))) ^ 2) xs"

definition hs_by :: "string option \<Rightarrow> string" where
  "hs_by by = (case by of None \<Rightarrow> ''path'' | Some b \<Rightarrow> b)"

definition hs_per :: "string list option \<Rightarrow> string list" where
  "hs_per count_one_change_per =
     (case count_one_change_per of None \<Rightarrow> [''revision''] | Some l \<Rightarrow> l)"

definition hs_changes :: "frame \<Rightarrow> string \<Rightarrow> string list \<Rightarrow> (cell \<times> nat) list" where
  "hs_changes lg b per = change_counts (map (\<lambda>c. (c, column lg c)) (per @ [b]))"

definition merged :: "frame \<Rightarrow> frame \<Rightarrow> string \<Rightarrow> string list \<Rightarrow> frame" where
  "merged lg loc b per =
     map (\<lambda>(c, vs). (c, map (fillna (Num 0)) vs))
       (merge_outer (rename_column loc ''code'' ''complexity'') b (hs_changes lg b per))"

definition add_scores :: "frame \<Rightarrow> frame" where
  "add_scores df =
     (let cs = score_column (column df ''complexity'');
          hs = score_column (column df ''changes'')
      in assign (assign (assign df ''complexity_score'' cs) ''changes_score'' hs) ''score''
           (map2 sum_cells cs hs))"

text \<open>
  The log and the size table of one path, changed in one revision: both the complexity
  and the changes column of the merged frame are constant.
\<close>

definition stats_changes :: frame where
  "stats_changes = [(''revision'', [Num 1016]), (''path'', [Str ''stats.py''])]"

section \<open>Properties\<close>

subsection \<open>Helpers\<close>

lemma set_drop_duplicates [simp]: "set (drop_duplicates xs) = set xs"
  by (induction xs rule: drop_duplicates.induct) auto

lemma distinct_drop_duplicates [simp]: "distinct (drop_duplicates xs)"
  by (induction xs rule: drop_duplicates.induct) auto

lemma set_present_keys:
  "set (map the (filter (\<lambda>k. k \<noteq> None) ys)) = {k. Some k \<in> set ys}"
  by (induction ys) auto

lemma set_groupby_count:
  "set (groupby_count key present xs)
     = {(k, length (filter (\<lambda>x. key x = Some k \<and> present x) xs)) | k. Some k \<in> key ` set xs}"
proof -
  have "set (sort (remdups (map the (filter (\<lambda>k. k \<noteq> None) (map key xs)))))
      = {k. Some k \<in> key ` set xs}"
    using set_present_keys [of "map key xs"] by simp
  then show ?thesis
    unfolding groupby_count_def set_map by blast
qed

lemma distinct_groupby_count: "distinct (map fst (groupby_count key present xs))"
  by (simp add: groupby_count_def o_def)

lemma set_by_rev:
  "set (by_rev lg) = {(r, paths_of_revision lg r) | r. Some r \<in> revision ` set lg}"
  by (simp add: by_rev_def set_groupby_count paths_of_revision_def)

lemma set_get_mass_changesets:
  "set (get_mass_changesets lg t) =
     {\<lparr>mc_revision = r, path_count = paths_of_revision lg r,
        mc_message = message x, mc_author = author x\<rparr> | r x.
        x \<in> set lg \<and> revision x = Some r \<and> int (paths_of_revision lg r) > t}"
  unfolding get_mass_changesets_def Let_def
  by (auto simp: set_by_rev image_iff) force+

lemma distinct_concat_map:
  assumes "distinct xs" and "\<And>x. x \<in> set xs \<Longrightarrow> distinct (f x)"
    and "\<And>x y. x \<in> set xs \<Longrightarrow> y \<in> set xs \<Longrightarrow> x \<noteq> y \<Longrightarrow> set (f x) \<inter> set (f y) = {}"
  shows "distinct (concat (map f xs))"
  using assms by (induction xs) (auto simp: disjoint_iff)

lemma distinct_get_mass_changesets: "distinct (get_mass_changesets lg t)"
proof -
  let ?triples = "drop_duplicates (map (\<lambda>x. (revision x, message x, author x)) lg)"
  let ?f = "\<lambda>(r, c). map (\<lambda>(r', m, a).
      \<lparr>mc_revision = r, path_count = c, mc_message = m, mc_author = a\<rparr>)
      (filter (\<lambda>(r', m, a). r' = Some r) ?triples)"
  let ?kept = "filter (\<lambda>(r, c). int c > t) (by_rev lg)"
  have "distinct (map fst (by_rev lg))"
    by (simp add: by_rev_def distinct_groupby_count)
  then have d: "distinct (by_rev lg)"
    by (rule distinct_map [THEN iffD1, THEN conjunct1])
  then have kept: "distinct ?kept"
    by simp
  have inj: "inj_on fst (set (by_rev lg))"
    using \<open>distinct (map fst (by_rev lg))\<close> by (simp add: distinct_map)
  have "distinct (concat (map ?f ?kept))"
  proof (rule distinct_concat_map [OF kept])
    fix x assume "x \<in> set ?kept"
    obtain r c where x: "x = (r, c)" by (cases x)
    have "inj_on (\<lambda>(r', m, a). \<lparr>mc_revision = r, path_count = c, mc_message = m, mc_author = a\<rparr>)
        (set (filter (\<lambda>(r', m, a). r' = Some r) ?triples))"
      by (auto simp: inj_on_def)
    then show "distinct (?f x)"
      by (simp add: x distinct_map)
  next
    fix x y assume "x \<in> set ?kept" "y \<in> set ?kept" "x \<noteq> y"
    then have "fst x \<noteq> fst y"
      using inj by (auto simp: inj_on_def)
    then show "set (?f x) \<inter> set (?f y) = {}"
      by (cases x; cases y) auto
  qed
  then show ?thesis
    by (simp add: get_mass_changesets_def Let_def)
qed

lemma fixture_mass_changesets_0:
  "get_mass_changesets fixture_log 0 =
     [\<lparr>mc_revision = 1016, path_count = 1, mc_message = ''modified again'',
         mc_author = ''elmotec''\<rparr>,
      \<lparr>mc_revision = 1018, path_count = 2, mc_message = ''modified'', mc_author = ''elmotec''\<rparr>]"
  by (simp add: get_mass_changesets_def by_rev_def groupby_count_def fixture_log_def)

lemma fixture_mass_changesets_1:
  "get_mass_changesets fixture_log 1 =
     [\<lparr>mc_revision = 1018, path_count = 2, mc_message = ''modified'', mc_author = ''elmotec''\<rparr>]"
  by (simp add: get_mass_changesets_def by_rev_def groupby_count_def fixture_log_def)

lemma fixture_paths_of_revision:
  "paths_of_revision fixture_log 1016 = 1" "paths_of_revision fixture_log 1018 = 2"
  by (simp_all add: paths_of_revision_def fixture_log_def)

subsection \<open>Mass change sets\<close>

text \<open>
  C4. Raising the threshold can only remove revisions: for thresholds \<open>t < t'\<close> the
  revisions that \<^verbatim>\<open>get_mass_changesets\<close> returns with \<open>t'\<close> are among those it returns
  with \<open>t\<close>, for every log.
\<close>

theorem mass_changesets_threshold_monotone:
  assumes "t < t'"
  shows "mc_revision ` set (get_mass_changesets lg t')
           \<subseteq> mc_revision ` set (get_mass_changesets lg t)"
  using assms by (auto simp: set_get_mass_changesets image_iff) force

text \<open>On the fixture log, threshold 1 keeps revision 1018 and threshold 0 keeps both.\<close>

theorem mass_changesets_threshold_monotone_witness:
  "(0::int) < 1
   \<and> mc_revision ` set (get_mass_changesets fixture_log 1) = {1018}
   \<and> mc_revision ` set (get_mass_changesets fixture_log 0) = {1016, 1018}
   \<and> mc_revision ` set (get_mass_changesets fixture_log 1)
        \<subseteq> mc_revision ` set (get_mass_changesets fixture_log 0)"
  using mass_changesets_threshold_monotone [of 0 1 fixture_log]
  by (simp add: fixture_mass_changesets_0 fixture_mass_changesets_1)

text \<open>
  C5 as stated fails when a row of the log has no path: \<^verbatim>\<open>count()\<close> counts the paths of
  a revision, not its rows. A revision with two rows, one of them without a path, has the
  row count 2 and the \<^verbatim>\<open>path_count\<close> 1, and is not kept at the threshold 1.
\<close>

theorem mass_changesets_row_count_counterexample:
  "get_mass_changesets pathless_log 1 = []
   \<and> rows_of_revision pathless_log 1 = 2 \<and> paths_of_revision pathless_log 1 = 1
   \<and> int (rows_of_revision pathless_log 1) > 1"
  by (simp add: get_mass_changesets_def by_rev_def groupby_count_def pathless_log_def
      rows_of_revision_def paths_of_revision_def)

text \<open>
  C5 as amended. \<^verbatim>\<open>get_mass_changesets\<close> keeps exactly the revisions of the log whose
  \<^verbatim>\<open>path_count\<close>, the number of log rows of the revision that have a path, is strictly
  greater than \<^verbatim>\<open>min_changes\<close>; rows without a revision belong to no revision. Its rows
  are the inner join on the revision of these counts with the distinct
  (revision, message, author) triples of the log: exactly one row for every distinct triple
  of a kept revision, carrying that revision's count. When no row of the log lacks a path,
  the count is the number of rows of the revision.
\<close>

theorem mass_changesets_strict_filter_and_join:
  "mc_revision ` set (get_mass_changesets lg min_changes)
     = {r. Some r \<in> revision ` set lg \<and> int (paths_of_revision lg r) > min_changes}
   \<and> set (get_mass_changesets lg min_changes)
     = {\<lparr>mc_revision = r, path_count = paths_of_revision lg r, mc_message = m, mc_author = a\<rparr>
          | r m a.
          (Some r, m, a) \<in> set (drop_duplicates (map (\<lambda>x. (revision x, message x, author x)) lg))
          \<and> int (paths_of_revision lg r) > min_changes}
   \<and> distinct (get_mass_changesets lg min_changes)
   \<and> ((\<forall>x \<in> set lg. path x \<noteq> None)
        \<longrightarrow> (\<forall>r. paths_of_revision lg r = rows_of_revision lg r))"
proof (intro conjI)
  show "mc_revision ` set (get_mass_changesets lg min_changes)
     = {r. Some r \<in> revision ` set lg \<and> int (paths_of_revision lg r) > min_changes}"
    by (auto simp: set_get_mass_changesets image_iff) force+
  show "set (get_mass_changesets lg min_changes)
     = {\<lparr>mc_revision = r, path_count = paths_of_revision lg r, mc_message = m, mc_author = a\<rparr>
          | r m a.
          (Some r, m, a) \<in> set (drop_duplicates (map (\<lambda>x. (revision x, message x, author x)) lg))
          \<and> int (paths_of_revision lg r) > min_changes}"
    by (auto simp: set_get_mass_changesets image_iff) force+
  show "distinct (get_mass_changesets lg min_changes)"
    by (rule distinct_get_mass_changesets)
  show "(\<forall>x \<in> set lg. path x \<noteq> None)
        \<longrightarrow> (\<forall>r. paths_of_revision lg r = rows_of_revision lg r)"
    by (auto simp: paths_of_revision_def rows_of_revision_def intro!: arg_cong [where f = length]
        filter_cong)
qed

text \<open>
  The fixture log with threshold 1: revision 1016 has one path and is dropped, revision
  1018 has two and is kept, in one row, with its count, message and author.
\<close>

theorem mass_changesets_strict_filter_and_join_witness:
  "paths_of_revision fixture_log 1016 = 1 \<and> paths_of_revision fixture_log 1018 = 2
   \<and> mc_revision ` set (get_mass_changesets fixture_log 1)
     = {r. Some r \<in> revision ` set fixture_log \<and> int (paths_of_revision fixture_log r) > 1}
   \<and> get_mass_changesets fixture_log 1 =
     [\<lparr>mc_revision = 1018, path_count = 2, mc_message = ''modified'', mc_author = ''elmotec''\<rparr>]"
proof -
  have "mc_revision ` set (get_mass_changesets fixture_log 1)
     = {r. Some r \<in> revision ` set fixture_log \<and> int (paths_of_revision fixture_log r) > 1}"
    using mass_changesets_strict_filter_and_join [of fixture_log 1] by (rule conjunct1)
  then show ?thesis
    by (simp only: fixture_paths_of_revision fixture_mass_changesets_1 simp_thms)
qed

subsection \<open>Co-changes: helpers\<close>

lemma finite_units_of [simp]: "finite (units_of lg by on p)"
proof -
  have "units_of lg by on p \<subseteq> the ` on ` set lg"
    by (force simp: units_of_def image_iff)
  then show ?thesis
    by (rule finite_subset) simp
qed

lemma set_self_join: "set (self_join df) = {(u, p, s). (u, p) \<in> set df \<and> (u, s) \<in> set df}"
  by (auto simp: self_join_def) force

lemma length_filter_distinct: "distinct xs \<Longrightarrow> length (filter P xs) = card {x \<in> set xs. P x}"
  by (metis distinct_card distinct_filter set_filter)

lemma pair_key_Some: "pair_key t = Some (p, s) \<longleftrightarrow> (\<exists>u. t = (u, Some p, Some s))"
  by (cases t rule: pair_key.cases) auto

lemma in_units_of: "u \<in> units_of lg by on p \<longleftrightarrow> (Some u, Some p) \<in> (\<lambda>x. (on x, by x)) ` set lg"
  unfolding units_of_def image_iff by (simp add: eq_commute [of "Some _"]) 

lemma share_unit_iff: "share_unit lg by on p s \<longleftrightarrow>
   (\<exists>u. (u, Some p) \<in> (\<lambda>x. (on x, by x)) ` set lg \<and> (u, Some s) \<in> (\<lambda>x. (on x, by x)) ` set lg)"
  unfolding share_unit_def image_iff by (metis prod.inject)

lemma set_pair_counts:
  "set (pair_counts lg by on) =
     {((p, s), card (units_of lg by on p \<inter> units_of lg by on s)) | p s. share_unit lg by on p s}"
proof -
  define D where "D = (\<lambda>x. (on x, by x)) ` set lg"
  let ?df = "drop_duplicates (map (\<lambda>x. (on x, by x)) lg)"
  let ?sj = "drop_duplicates (self_join ?df)"
  have sj: "set ?sj = {(u, p, s). (u, p) \<in> D \<and> (u, s) \<in> D}"
    by (simp add: set_self_join D_def)
  have dsj: "distinct ?sj"
    by (rule distinct_drop_duplicates)
  have U: "units_of lg by on p = {u. (Some u, Some p) \<in> D}" for p
    using in_units_of [of _ lg "by" on p] unfolding D_def by blast
  have S: "share_unit lg by on p s \<longleftrightarrow> (\<exists>u. (u, Some p) \<in> D \<and> (u, Some s) \<in> D)" for p s
    unfolding D_def by (rule share_unit_iff)
  have cnt: "length (filter (\<lambda>x. pair_key x = Some (p, s) \<and> (case x of (u, p, s) \<Rightarrow> u \<noteq> None)) ?sj)
      = card (units_of lg by on p \<inter> units_of lg by on s)" for p s
  proof -
    have "{x \<in> set ?sj. pair_key x = Some (p, s) \<and> (case x of (u, p, s) \<Rightarrow> u \<noteq> None)}
        = (\<lambda>u. (Some u, Some p, Some s)) ` (units_of lg by on p \<inter> units_of lg by on s)"
      (is "?L = ?R")
    proof (intro set_eqI iffI)
      fix x assume "x \<in> ?L"
      then obtain u where x: "x = (u, Some p, Some s)" and m: "(u, Some p) \<in> D" "(u, Some s) \<in> D"
        and n: "u \<noteq> None"
        unfolding sj by (auto simp: pair_key_Some)
      from n obtain v where "u = Some v" by blast
      with x m show "x \<in> ?R" by (simp add: U)
    next
      fix x assume "x \<in> ?R"
      then obtain v where "x = (Some v, Some p, Some s)" "(Some v, Some p) \<in> D" "(Some v, Some s) \<in> D"
        by (auto simp: U)
      then show "x \<in> ?L" unfolding sj by simp
    qed
    moreover have "inj_on (\<lambda>u. (Some u, Some p, Some s))
        (units_of lg by on p \<inter> units_of lg by on s)"
      by (simp add: inj_on_def)
    ultimately show ?thesis
      using dsj by (simp only: length_filter_distinct card_image)
  qed
  have keys: "Some (p, s) \<in> pair_key ` set ?sj \<longleftrightarrow> share_unit lg by on p s" for p s
  proof -
    have "Some (p, s) \<in> pair_key ` set ?sj \<longleftrightarrow> (\<exists>t \<in> set ?sj. pair_key t = Some (p, s))"
      by (auto simp: image_iff eq_commute)
    also have "\<dots> \<longleftrightarrow> (\<exists>u. (u, Some p, Some s) \<in> set ?sj)"
      by (auto simp: pair_key_Some)
    also have "\<dots> \<longleftrightarrow> share_unit lg by on p s"
      unfolding sj S by simp
    finally show ?thesis .
  qed
  have "set (pair_counts lg by on) =
      {(k, length (filter (\<lambda>x. pair_key x = Some k \<and> (case x of (u, p, s) \<Rightarrow> u \<noteq> None)) ?sj)) | k.
         Some k \<in> pair_key ` set ?sj}"
    unfolding pair_counts_def Let_def set_groupby_count ..
  also have "\<dots> = {((p, s), card (units_of lg by on p \<inter> units_of lg by on s)) | p s. share_unit lg by on p s}"
    using cnt keys by auto
  finally show ?thesis .
qed

lemma share_unit_self:
  "share_unit lg by on p s \<Longrightarrow> share_unit lg by on p p"
  unfolding share_unit_def by blast

lemma share_unit_sym: "share_unit lg by on p s \<longleftrightarrow> share_unit lg by on s p"
  unfolding share_unit_def by metis

lemma set_co_changes:
  "set (co_changes lg by on) =
     {\<lparr>primary = p, secondary = s,
        cochanges = card (units_of lg by on p \<inter> units_of lg by on s),
        changes = card (units_of lg by on p),
        coupling = divide_counts (card (units_of lg by on p \<inter> units_of lg by on s))
                     (card (units_of lg by on p))\<rparr> | p s.
        p \<noteq> s \<and> share_unit lg by on p s}"
  (is "?L = ?R")
proof (intro set_eqI iffI)
  fix r assume "r \<in> ?L"
  then obtain p s' ch s co where a: "((p, s'), ch) \<in> set (pair_counts lg by on)" "p = s'"
      and b: "((p, s), co) \<in> set (pair_counts lg by on)" "p \<noteq> s"
      and r: "r = \<lparr>primary = p, secondary = s, cochanges = co, changes = ch,
                    coupling = divide_counts co ch\<rparr>"
    unfolding co_changes_def Let_def by auto
  from a have ch: "ch = card (units_of lg by on p)"
    unfolding set_pair_counts by auto
  from b have co: "co = card (units_of lg by on p \<inter> units_of lg by on s)"
      and sh: "share_unit lg by on p s"
    unfolding set_pair_counts by auto
  show "r \<in> ?R"
    unfolding r ch co using b(2) sh by blast
next
  fix r assume "r \<in> ?R"
  then obtain p s where ps: "p \<noteq> s" "share_unit lg by on p s"
      and r: "r = \<lparr>primary = p, secondary = s,
        cochanges = card (units_of lg by on p \<inter> units_of lg by on s),
        changes = card (units_of lg by on p),
        coupling = divide_counts (card (units_of lg by on p \<inter> units_of lg by on s))
                     (card (units_of lg by on p))\<rparr>"
    by blast
  have a: "((p, p), card (units_of lg by on p)) \<in> set (pair_counts lg by on)"
    unfolding set_pair_counts using share_unit_self [OF ps(2)] by force
  have b: "((p, s), card (units_of lg by on p \<inter> units_of lg by on s)) \<in> set (pair_counts lg by on)"
    unfolding set_pair_counts using ps(2) by blast
  show "r \<in> ?L"
    unfolding co_changes_def Let_def r using a b ps(1) by force
qed

lemma co_changes_rowD:
  assumes "r \<in> set (co_changes lg by on)"
  shows "primary r \<noteq> secondary r"
    and "share_unit lg by on (primary r) (secondary r)"
    and "cochanges r = card (units_of lg by on (primary r) \<inter> units_of lg by on (secondary r))"
    and "changes r = card (units_of lg by on (primary r))"
    and "coupling r = divide_counts (cochanges r) (changes r)"
  using assms unfolding set_co_changes by auto

lemma co_changes_rowI:
  assumes "p \<noteq> s" and "share_unit lg by on p s"
  shows "\<lparr>primary = p, secondary = s,
        cochanges = card (units_of lg by on p \<inter> units_of lg by on s),
        changes = card (units_of lg by on p),
        coupling = divide_counts (card (units_of lg by on p \<inter> units_of lg by on s))
                     (card (units_of lg by on p))\<rparr> \<in> set (co_changes lg by on)"
  unfolding set_co_changes using assms by blast

lemmas co_changes_eval =
  co_changes_def pair_counts_def self_join_def groupby_count_def divide_counts_def
  coupling_key_def

lemma fixture_co_changes:
  "co_changes fixture_log path revision =
     [\<lparr>primary = ''requirements.txt'', secondary = ''stats.py'', cochanges = 1, changes = 1,
        coupling = Some 1\<rparr>,
      \<lparr>primary = ''stats.py'', secondary = ''requirements.txt'', cochanges = 1, changes = 2,
        coupling = Some (1 / 2)\<rparr>]"
  by (simp add: co_changes_eval fixture_log_def)

lemma unrevisioned_co_changes:
  "co_changes unrevisioned_log path revision =
     [\<lparr>primary = ''a'', secondary = ''b'', cochanges = 0, changes = 0, coupling = None\<rparr>,
      \<lparr>primary = ''b'', secondary = ''a'', cochanges = 0, changes = 0, coupling = None\<rparr>]"
  by (simp add: co_changes_eval unrevisioned_log_def)

lemma mixed_co_changes:
  "co_changes mixed_log path revision =
     [\<lparr>primary = ''a'', secondary = ''b'', cochanges = 0, changes = 1, coupling = Some 0\<rparr>,
      \<lparr>primary = ''b'', secondary = ''a'', cochanges = 0, changes = 0, coupling = None\<rparr>]"
  by (simp add: co_changes_eval mixed_log_def)

lemma co_changes_swap_exists:
  assumes "r \<in> set (co_changes lg by on)"
  shows "\<exists>r' \<in> set (co_changes lg by on). primary r' = secondary r \<and> secondary r' = primary r"
proof -
  note d = co_changes_rowD [OF assms]
  define p s where "p = primary r" and "s = secondary r"
  have ps: "s \<noteq> p" and sh: "share_unit lg by on s p"
    using d(1,2) share_unit_sym [of lg "by" on s p] by (auto simp: p_def s_def)
  let ?r' = "\<lparr>primary = s, secondary = p,
        cochanges = card (units_of lg by on s \<inter> units_of lg by on p),
        changes = card (units_of lg by on s),
        coupling = divide_counts (card (units_of lg by on s \<inter> units_of lg by on p))
                     (card (units_of lg by on s))\<rparr>"
  have "?r' \<in> set (co_changes lg by on)"
    using ps sh by (rule co_changes_rowI)
  then show ?thesis
    by (intro bexI [of _ ?r']) (simp_all add: p_def s_def)
qed

lemma co_changes_swap_cochanges:
  assumes "r \<in> set (co_changes lg by on)" and "r' \<in> set (co_changes lg by on)"
    and "primary r' = secondary r" and "secondary r' = primary r"
  shows "cochanges r' = cochanges r"
  using assms by (simp add: co_changes_rowD Int_commute)

lemma fixture_coupling_asymmetric:
  "\<exists>r \<in> set (co_changes fixture_log path revision).
       \<exists>r' \<in> set (co_changes fixture_log path revision).
         primary r' = secondary r \<and> secondary r' = primary r \<and> coupling r' \<noteq> coupling r"
  by (simp add: fixture_co_changes)

lemma share_unit_present:
  assumes "share_unit lg by on p s" and "\<forall>x \<in> set lg. on x \<noteq> None"
  shows "units_of lg by on p \<inter> units_of lg by on s \<noteq> {}"
proof -
  from assms(1) obtain x y where xy: "x \<in> set lg" "y \<in> set lg" "by x = Some p" "by y = Some s"
      "on x = on y"
    unfolding share_unit_def by blast
  from assms(2) xy(1) obtain u where u: "on x = Some u" by auto
  have "u \<in> units_of lg by on p" "u \<in> units_of lg by on s"
    unfolding units_of_def using xy u by auto
  then show ?thesis by blast
qed

subsection \<open>Co-changes\<close>

text \<open>
  C2 (as stated) fails on a log with missing revisions: two paths that occur only in rows
  without revision are joined to each other, and the counts skip the missing values, so
  both rows of the report have cochanges 0, changes 0 and a missing coupling; with one
  more row, of the first path in revision 7, the first row has changes 1 and coupling 0.
\<close>

theorem co_changes_missing_unit_counterexample:
  "co_changes unrevisioned_log path revision =
     [\<lparr>primary = ''a'', secondary = ''b'', cochanges = 0, changes = 0, coupling = None\<rparr>,
      \<lparr>primary = ''b'', secondary = ''a'', cochanges = 0, changes = 0, coupling = None\<rparr>]
   \<and> co_changes mixed_log path revision =
     [\<lparr>primary = ''a'', secondary = ''b'', cochanges = 0, changes = 1, coupling = Some 0\<rparr>,
      \<lparr>primary = ''b'', secondary = ''a'', cochanges = 0, changes = 0, coupling = None\<rparr>]"
  by (simp add: unrevisioned_co_changes mixed_co_changes)

text \<open>
  C2 (amended). In every row of the co-change report the changes count is the number of
  grouping units, with a present \<^verbatim>\<open>on\<close> value, that hold the primary path, the cochanges
  count is the number of those that hold both paths, and the coupling is the cochanges
  count divided by the changes count, missing when the changes count is 0. The coupling
  is strictly greater than 0 and at most 1 whenever the cochanges count is not 0, which
  is the case in every row when no row of the log lacks its \<^verbatim>\<open>on\<close> value; it is 0 when
  the cochanges count is 0 and the changes count is not.
\<close>

theorem co_changes_coupling_range:
  assumes "r \<in> set (co_changes lg by on)"
  shows "changes r = card (units_of lg by on (primary r))
    \<and> cochanges r = card (units_of lg by on (primary r) \<inter> units_of lg by on (secondary r))
    \<and> cochanges r \<le> changes r
    \<and> coupling r = (if changes r = 0 then None
                    else Some (real (cochanges r) / real (changes r)))
    \<and> (0 < cochanges r \<longrightarrow> (\<exists>c. coupling r = Some c \<and> 0 < c \<and> c \<le> 1))
    \<and> (cochanges r = 0 \<and> 0 < changes r \<longrightarrow> coupling r = Some 0)
    \<and> ((\<forall>x \<in> set lg. on x \<noteq> None) \<longrightarrow> 0 < cochanges r)"
proof -
  let ?P = "units_of lg by on (primary r)"
  let ?S = "units_of lg by on (secondary r)"
  note d = co_changes_rowD [OF assms]
  have le: "card (?P \<inter> ?S) \<le> card ?P"
    by (simp add: card_mono)
  have c: "coupling r = (if changes r = 0 then None
                    else Some (real (cochanges r) / real (changes r)))"
    using d(5) by (simp add: divide_counts_def)
  have pos: "0 < cochanges r" if "\<forall>x \<in> set lg. on x \<noteq> None"
    using share_unit_present [OF d(2) that] by (simp add: d(3) card_gt_0_iff)
  have rng: "\<exists>c. coupling r = Some c \<and> 0 < c \<and> c \<le> 1" if "0 < cochanges r"
  proof -
    from that le have "0 < changes r" "cochanges r \<le> changes r"
      unfolding d(3) d(4) by linarith+
    then show ?thesis
      using that by (simp add: c)
  qed
  have zero: "coupling r = Some 0" if "cochanges r = 0 \<and> 0 < changes r"
    using that by (simp add: c)
  have le': "cochanges r \<le> changes r"
    using le by (simp only: d(3) d(4))
  show ?thesis
    by (intro conjI impI; (fact d(4) d(3) le' c | erule rng zero pos))
qed

text \<open>
  The report of the fixture log, which has a revision in every row: \<^verbatim>\<open>stats.py\<close> changed in
  two revisions, one of them with \<^verbatim>\<open>requirements.txt\<close>, so its coupling to
  \<^verbatim>\<open>requirements.txt\<close> is 1/2. In the log with missing revisions the first row has
  cochanges 0 of changes 1.
\<close>

theorem co_changes_coupling_range_witness:
  "co_changes fixture_log path revision =
     [\<lparr>primary = ''requirements.txt'', secondary = ''stats.py'', cochanges = 1, changes = 1,
        coupling = Some 1\<rparr>,
      \<lparr>primary = ''stats.py'', secondary = ''requirements.txt'', cochanges = 1, changes = 2,
        coupling = Some (1 / 2)\<rparr>]
   \<and> 0 < cochanges (co_changes fixture_log path revision ! 1)
   \<and> coupling (co_changes fixture_log path revision ! 1) = Some (1 / 2)
   \<and> cochanges (co_changes mixed_log path revision ! 0) = 0
   \<and> 0 < changes (co_changes mixed_log path revision ! 0)
   \<and> coupling (co_changes mixed_log path revision ! 0) = Some 0"
proof -
  let ?r = "co_changes fixture_log path revision ! 1"
  let ?m = "co_changes mixed_log path revision ! 0"
  have r: "?r \<in> set (co_changes fixture_log path revision)"
    by (simp add: fixture_co_changes)
  have m: "?m \<in> set (co_changes mixed_log path revision)"
    by (simp add: mixed_co_changes)
  have p: "\<forall>x \<in> set fixture_log. revision x \<noteq> None"
    by (simp add: fixture_log_def)
  have z: "cochanges ?m = 0 \<and> 0 < changes ?m"
    by (simp add: mixed_co_changes)
  from co_changes_coupling_range [OF r] p
  have "0 < cochanges ?r" by blast
  with co_changes_coupling_range [OF r]
  have "coupling ?r = Some (real (cochanges ?r) / real (changes ?r))"
    by (simp split: if_splits)
  then have c: "coupling ?r = Some (1 / 2)"
    by (simp add: fixture_co_changes)
  from co_changes_coupling_range [OF m] z
  have "coupling ?m = Some 0" by blast
  with z c \<open>0 < cochanges ?r\<close> show ?thesis
    by (simp add: fixture_co_changes)
qed

text \<open>
  C3. For every row (A, B) of the co-change report, the report also has a row (B, A), and
  every such row has the same cochanges count; the couplings of the two rows need not be
  equal: on the fixture log they are 1 and 1/2.
\<close>

theorem co_changes_cochanges_symmetric:
  "(\<forall>r \<in> set (co_changes lg by on).
      (\<exists>r' \<in> set (co_changes lg by on). primary r' = secondary r \<and> secondary r' = primary r)
      \<and> (\<forall>r' \<in> set (co_changes lg by on).
            primary r' = secondary r \<and> secondary r' = primary r \<longrightarrow> cochanges r' = cochanges r))
   \<and> (\<exists>r \<in> set (co_changes fixture_log path revision).
       \<exists>r' \<in> set (co_changes fixture_log path revision).
         primary r' = secondary r \<and> secondary r' = primary r \<and> coupling r' \<noteq> coupling r)"
  using co_changes_swap_exists [of _ lg "by" on] co_changes_swap_cochanges [of _ lg "by" on]
    fixture_coupling_asymmetric
  by blast

text \<open>The two rows of the fixture's report: equal cochanges, different couplings.\<close>

theorem co_changes_cochanges_symmetric_witness:
  "(let out = co_changes fixture_log path revision in
     primary (out ! 0) = ''requirements.txt'' \<and> secondary (out ! 0) = ''stats.py''
     \<and> primary (out ! 1) = ''stats.py'' \<and> secondary (out ! 1) = ''requirements.txt''
     \<and> cochanges (out ! 0) = 1 \<and> cochanges (out ! 1) = 1
     \<and> coupling (out ! 0) = Some 1 \<and> coupling (out ! 1) = Some (1 / 2))"
  using co_changes_cochanges_symmetric [of fixture_log path revision]
  by (simp add: fixture_co_changes)

subsection \<open>Component names: helpers\<close>

lemma mset_rank_insert: "mset (rank_insert a xs) = add_mset a (mset xs)"
  by (induction xs) auto

lemma mset_rank_features: "mset (rank_features xs) = mset xs"
  by (induction xs) (auto simp: rank_features_def mset_rank_insert)

lemma ranks_before_key: "ranks_before a b \<longleftrightarrow> rank_key b \<le> rank_key a"
  by (cases a; cases b) (auto simp: ranks_before_def rank_key_def)

lemma inj_rank_key: "inj rank_key"
  by (auto simp: inj_on_def rank_key_def)

lemma set_rank_insert: "set (rank_insert a xs) = insert a (set xs)"
  by (induction xs) auto

lemma sorted_rank_insert:
  "sorted_wrt ranks_before xs \<Longrightarrow> sorted_wrt ranks_before (rank_insert a xs)"
  by (induction xs) (auto simp: set_rank_insert ranks_before_key)

lemma sorted_rank_features: "sorted_wrt ranks_before (rank_features xs)"
  by (induction xs) (auto simp: rank_features_def sorted_rank_insert)

lemma sorted_key_unique:
  assumes "inj f" and "sorted (map f ys)" and "mset ys = mset xs"
  shows "ys = sort_key f xs"
proof -
  have "sort (map f xs) = map f ys"
    using assms(2,3) by (intro properties_for_sort) simp_all
  moreover have "sort (map f xs) = map f (sort_key f xs)"
    by (intro properties_for_sort) simp_all
  ultimately show ?thesis
    using assms(1) by (simp add: inj_map_eq_map)
qed

lemma rank_features_sort: "rank_features xs = rev (sort_key rank_key xs)"
proof -
  have "sorted_wrt (\<lambda>a b. rank_key b \<le> rank_key a) (rank_features xs)"
    using sorted_rank_features [of xs] by (simp add: ranks_before_key [abs_def])
  then have "sorted (map rank_key (rev (rank_features xs)))"
    by (simp add: sorted_map sorted_wrt_rev)
  then have "rev (rank_features xs) = sort_key rank_key xs"
    by (intro sorted_key_unique inj_rank_key) (simp_all add: mset_rank_features)
  then show ?thesis
    by (metis rev_rev_ident)
qed

lemma join_dotted: "join ''.'' xs = dotted xs"
  by (induction "''.''" xs rule: join.induct) simp_all

lemma float_0_4_literal: "float_0_4 = 3602879701896397 / 9007199254740992"
  by (simp add: float_0_4_def)

lemma float_0_4_nearest: "\<bar>float_0_4 - 4 / 10\<bar> \<le> \<bar>real_of_int m / 2 ^ 54 - 4 / 10\<bar>"
proof -
  have a: "\<bar>float_0_4 - 4 / 10\<bar> = (4 / 10) / 2 ^ 54"
    by (simp add: float_0_4_def)
  have b: "real_of_int m / 2 ^ 54 - 4 / 10 = (real_of_int m - 72057594037927936 / 10) / 2 ^ 54"
    by (simp add: field_simps)
  consider "m \<le> 7205759403792793" | "7205759403792794 \<le> m"
    by linarith
  then have "4 / 10 \<le> \<bar>real_of_int m - 72057594037927936 / 10\<bar>"
  proof cases
    case 1
    then have "real_of_int m \<le> 7205759403792793" by linarith
    then show ?thesis by linarith
  next
    case 2
    then have "7205759403792794 \<le> real_of_int m" by linarith
    then show ?thesis by linarith
  qed
  then show ?thesis
    unfolding a b by (simp add: divide_right_mono)
qed

lemma cluster_name_spec:
  assumes "length center = length vectorizer"
  shows "cluster_name center vectorizer n_clusters (3602879701896397 / 9007199254740992)
           = Inr (spec_cluster_name vectorizer center)"
proof -
  let ?df = "rev (sort_key (\<lambda>(feature, weight). (weight, feature)) (zip vectorizer center))"
  have df: "?df = rank_features (zip vectorizer center)"
    by (simp add: rank_features_sort rank_key_def)
  have all: "list_all (\<lambda>(feature, weight). weight \<le> t) xs
      \<longleftrightarrow> filter (\<lambda>(f, w). w > t) xs = []" for xs :: "(string \<times> real) list" and t
    by (induction xs) auto
  show ?thesis
    using assms
    unfolding cluster_name_def spec_cluster_name_def Let_def df all float_0_4_literal join_dotted
    by simp
qed

subsection \<open>Component names\<close>

text \<open>
  C9. For every cluster center (with one weight per feature), the name that
  \<^verbatim>\<open>guess_components\<close> computes is the name of the specification: the features are ranked
  by weight descending, ties broken by feature name descending (the ranking is ordered by
  \<open>ranks_before\<close> and is a permutation of the features), those of weight strictly greater
  than 0.4 are kept, and the name is the empty string when none is kept, else the kept names
  joined with a dot. The threshold is the float 0.4: of the multiples of \<open>2 ^ -54\<close>, the
  floats between 1/4 and 1/2, none is nearer to 4/10.
\<close>

theorem cluster_names_follow_ranking:
  assumes "\<forall>center \<in> set cluster_centers. length center = length vectorizer"
  shows "cluster_names vectorizer cluster_centers n_clusters
           = map (\<lambda>center. Inr (spec_cluster_name vectorizer center)) cluster_centers
    \<and> (\<forall>center \<in> set cluster_centers.
          sorted_wrt ranks_before (rank_features (zip vectorizer center))
          \<and> mset (rank_features (zip vectorizer center)) = mset (zip vectorizer center))
    \<and> (\<forall>m. \<bar>float_0_4 - 4 / 10\<bar> \<le> \<bar>real_of_int m / 2 ^ 54 - 4 / 10\<bar>)"
proof -
  have names: "cluster_names vectorizer cluster_centers n_clusters
           = map (\<lambda>center. Inr (spec_cluster_name vectorizer center)) cluster_centers"
    unfolding cluster_names_def
  proof (rule map_cong [OF refl])
    fix center assume "center \<in> set cluster_centers"
    with assms have "length center = length vectorizer"
      by blast
    then show "cluster_name center vectorizer n_clusters (3602879701896397 / 9007199254740992)
        = Inr (spec_cluster_name vectorizer center)"
      by (rule cluster_name_spec)
  qed
  have ranked: "sorted_wrt ranks_before (rank_features (zip vectorizer center))
      \<and> mset (rank_features (zip vectorizer center)) = mset (zip vectorizer center)" for center
    by (simp only: sorted_rank_features mset_rank_features simp_thms)
  show ?thesis
    using names ranked float_0_4_nearest by blast
qed

text \<open>
  Four features and six centers, which keep three, no, one, two and four features and,
  last, one again: in the first, \<^verbatim>\<open>src\<close> and \<^verbatim>\<open>analysis\<close> tie at 0.5 and the greater name
  comes first; in the second, no weight is greater than the threshold; in the last, the
  weight of \<^verbatim>\<open>app\<close> is the float 0.4 itself, which is not kept, and the weight of \<^verbatim>\<open>src\<close>
  is the next float, which is.
\<close>

theorem cluster_names_follow_ranking_witness:
  "cluster_names [''analysis'', ''app'', ''src'', ''test'']
      [[1 / 2, 1 / 8, 1 / 2, 3 / 4], [1 / 8, 1 / 4, 3 / 8, 5 / 16],
       [1 / 8, 1 / 2, 1 / 4, 1 / 4], [1 / 8, 1 / 2, 1 / 4, 3 / 4],
       [1 / 2, 5 / 8, 7 / 8, 3 / 4],
       [1 / 8, 3602879701896397 / 9007199254740992, 3602879701896398 / 9007199254740992, 1 / 4]] 2
     = [Inr ''test.src.analysis'', Inr '''', Inr ''app'', Inr ''test.app'',
        Inr ''src.test.app.analysis'', Inr ''src'']
   \<and> spec_cluster_name [''analysis'', ''app'', ''src'', ''test''] [1 / 2, 1 / 8, 1 / 2, 3 / 4]
     = ''test.src.analysis''
   \<and> spec_cluster_name [''analysis'', ''app'', ''src'', ''test''] [1 / 8, 1 / 4, 3 / 8, 5 / 16]
     = ''''"
  using cluster_names_follow_ranking [of
      "[[1 / 2, 1 / 8, 1 / 2, 3 / 4], [1 / 8, 1 / 4, 3 / 8, 5 / 16],
       [1 / 8, 1 / 2, 1 / 4, 1 / 4], [1 / 8, 1 / 2, 1 / 4, 3 / 4],
       [1 / 2, 5 / 8, 7 / 8, 3 / 4],
       [1 / 8, 3602879701896397 / 9007199254740992, 3602879701896398 / 9007199254740992, 1 / 4]]"
      "[''analysis'', ''app'', ''src'', ''test'']" 2]
  by (simp add: spec_cluster_name_def rank_features_def ranks_before_def float_0_4_def)

subsection \<open>Frames: helpers\<close>

lemma columns_of_rows [simp]: "columns (of_rows names rs) = names"
  by (simp add: columns_def of_rows_def o_def split_def map_snd_enumerate [unfolded o_def])

lemma columns_Nil [simp]: "columns [] = []"
  by (simp add: columns_def)

lemma columns_Cons [simp]: "columns ((c, vs) # df) = c # columns df"
  by (simp add: columns_def)

lemma columns_append [simp]: "columns (df @ df') = columns df @ columns df'"
  by (simp add: columns_def)





lemma drop_columns_append [simp]:
  "drop_columns (df @ df') names = drop_columns df names @ drop_columns df' names"
  by (simp add: drop_columns_def)

lemma column_absent_append:
  "c \<notin> set (columns df) \<Longrightarrow> column (df @ df') c = column df' c"
  by (induction df) (auto simp: column_def columns_def)

lemma column_assign_same [simp]: "column (assign df c vs) c = vs"
  by (induction df) (auto simp: column_def)



lemma select_Inr:
  "select df names = Inr sel \<longleftrightarrow>
     set names \<subseteq> set (columns df) \<and> sel = map (\<lambda>c. (c, column df c)) names"
  by (auto simp: select_def)


lemma length_rows_of [simp]: "length (rows_of df) = nrows df"
  by (simp add: rows_of_def)
subsection \<open>Ages: helpers\<close>




lemma latest_Nil [simp]: "latest [] = NaN"
  by (simp add: latest_def)

lemma latest_Cons [simp]: "latest (d # ds) = date_max d (latest ds)"
  by (simp add: latest_def)
















subsection \<open>Ages\<close>






subsection \<open>Hot spots: helpers\<close>

lemma collect_map_Inr [simp]: "collect (map Inr ys) = Inr ys"
  by (induction ys) auto

lemma collect_InrD: "collect xs = Inr ys \<Longrightarrow> xs = map Inr ys"
  by (induction xs arbitrary: ys rule: collect.induct) (auto split: sum.splits)

lemma collect_Inr: "collect xs = Inr ys \<longleftrightarrow> xs = map Inr ys"
  by (auto dest: collect_InrD)

lemma astype_float_Inr: "astype_float c = Inr d \<longleftrightarrow> is_float c \<and> d = c"
  by (cases c) auto

lemma collect_astype:
  "collect (map astype_float vs) = Inr ws \<longleftrightarrow> list_all is_float vs \<and> ws = vs"
proof (induction vs arbitrary: ws)
  case Nil
  then show ?case by auto
next
  case (Cons v vs)
  have ih: "collect (map astype_float vs) = Inr vs" if "list_all is_float vs"
    using that Cons [of vs] by simp
  have ih': "list_all is_float vs \<and> us = vs" if "collect (map astype_float vs) = Inr us" for us
    using that Cons [of us] by simp
  show ?case
    by (cases v) (auto simp: ih split: sum.splits dest: ih')
qed

lemma compute_score_two:
  "compute_score [(a, va), (b, vb)] = Inr sc \<longleftrightarrow>
     list_all is_float va \<and> list_all is_float vb
     \<and> sc = [(a, score_column va), (b, score_column vb)]"
proof (cases "collect (map astype_float va)")
  case (Inl e)
  then have "\<not> list_all is_float va"
    using collect_astype [of va va] by auto
  with Inl show ?thesis
    by (simp add: compute_score_def)
next
  case a: (Inr wa)
  then have wa: "list_all is_float va" "wa = va"
    by (simp_all add: collect_astype)
  show ?thesis
  proof (cases "collect (map astype_float vb)")
    case (Inl e)
    then have "\<not> list_all is_float vb"
      using collect_astype [of vb vb] by auto
    with Inl a show ?thesis
      by (simp add: compute_score_def)
  next
    case (Inr wb)
    then have "list_all is_float vb" "wb = vb"
      by (simp_all add: collect_astype)
    with Inr a wa show ?thesis
      by (auto simp: compute_score_def)
  qed
qed

lemma nums_map_Num [simp]: "nums (map Num xs) = xs"
  by (induction xs) auto

lemma fillna_float: "is_float c \<Longrightarrow> fillna (Num 0) c = Num (num0 c)"
  by (cases c) (auto simp: fillna_def)

lemma Max_shift:
  fixes S :: "real set"
  assumes "finite S" and "S \<noteq> {}"
  shows "Max ((\<lambda>x. x - m) ` S) = Max S - m"
  using assms by (intro mono_Max_commute [symmetric] monoI) simp_all

text \<open>
  In \<^verbatim>\<open>compute_score\<close> a zero divisor comes with zero dividends only: when the maximum of
  the shifted column is 0, every cell of the shifted column is 0.
\<close>

lemma score_column_zero_divisor:
  fixes xs :: "real list"
  assumes "x \<in> set xs" and "Max ((\<lambda>x. x - Min (set xs)) ` set xs) = 0"
  shows "x - Min (set xs) = 0"
proof -
  have "x - Min (set xs) \<le> Max ((\<lambda>x. x - Min (set xs)) ` set xs)"
    using assms(1) by (intro Max_ge) auto
  moreover have "Min (set xs) \<le> x"
    using assms(1) by (intro Min_le) auto
  ultimately show ?thesis
    using assms(2) by linarith
qed

lemma score_column_scaled:
  assumes "list_all is_float vs"
  shows "score_column vs = map Num (scaled (map num0 vs))"
proof (cases "vs = []")
  case True
  then show ?thesis
    by (simp add: score_column_def scaled_def)
next
  case False
  define xs where "xs = map num0 vs"
  have ne: "xs \<noteq> []" and fin: "finite (set xs)" and ne': "set xs \<noteq> {}"
    using False by (simp_all add: xs_def)
  have d1: "map (fillna (Num 0)) vs = map Num xs"
    using assms by (simp add: xs_def list_all_iff fillna_float)
  have mn: "col_min (map Num xs) = Num (Min (set xs))"
    using ne by (simp add: col_min_def)
  have d2: "map (\<lambda>c. sub_cell c (Num (Min (set xs)))) (map Num xs)
      = map Num (map (\<lambda>x. x - Min (set xs)) xs)"
    by simp
  have mx: "col_max (map Num (map (\<lambda>x. x - Min (set xs)) xs)) = Num (Max (set xs) - Min (set xs))"
    using ne fin ne' by (simp add: col_max_def Max_shift del: map_map)
  have cell: "square_cell (fillna (Num 0)
        (div_cell (Num (x - Min (set xs))) (Num (Max (set xs) - Min (set xs)))))
      = Num (if Max (set xs) = Min (set xs) then 0
             else ((x - Min (set xs)) / (Max (set xs) - Min (set xs))) ^ 2)" for x
    by (simp add: fillna_def)
  have d3: "map square_cell (map (fillna (Num 0))
        (map (\<lambda>c. div_cell c (Num (Max (set xs) - Min (set xs))))
           (map Num (map (\<lambda>x. x - Min (set xs)) xs))))
      = map Num (scaled xs)"
    by (simp add: scaled_def o_def fillna_def)
  show ?thesis
    unfolding score_column_def Let_def d1 mn d2 mx d3 xs_def [symmetric] ..
qed


lemma length_scaled [simp]: "length (scaled xs) = length xs"
  by (simp add: scaled_def)




lemma scaled_constant:
  "Max (set xs) = Min (set xs) \<Longrightarrow> scaled xs = replicate (length xs) 0"
  by (simp add: scaled_def map_replicate_const)
lemma column_assign_other: "c' \<noteq> c \<Longrightarrow> column (assign df c vs) c' = column df c'"
  by (induction df) (auto simp: column_def)

lemma column_map_values:
  "column (map (\<lambda>(c, vs). (c, f vs)) df) c = (if c \<in> set (columns df) then f (column df c) else [])"
  by (induction df) (auto simp: column_def columns_def)

lemma columns_map_values [simp]: "columns (map (\<lambda>(c, vs). (c, f c vs)) df) = columns df"
  by (simp add: columns_def split_def)

lemma columns_merge_outer [simp]:
  "columns (merge_outer c_df b ch_df) = columns c_df @ [''changes'']"
  by (simp add: merge_outer_def columns_def split_def Let_def)

lemma columns_merged:
  "columns (merged lg loc b per) = columns (rename_column loc ''code'' ''complexity'') @ [''changes'']"
  unfolding merged_def columns_map_values by simp

lemma compute_score_two_ok:
  "list_all is_float va \<Longrightarrow> list_all is_float vb \<Longrightarrow>
     compute_score [(a, va), (b, vb)] = Inr [(a, score_column va), (b, score_column vb)]"
  by (simp add: compute_score_two)

lemma hot_spots_Inr:
  fixes lg loc :: frame
  defines "c_df \<equiv> rename_column loc ''code'' ''complexity''"
  shows "hot_spots lg loc by cocp = Inr out \<longleftrightarrow>
     set (hs_per cocp @ [hs_by by]) \<subseteq> set (columns lg) \<and> hs_by by \<notin> set (hs_per cocp)
     \<and> hs_by by \<in> set (columns c_df) \<and> distinct (columns c_df)
     \<and> ''changes'' \<notin> set (columns c_df) \<and> ''complexity'' \<in> set (columns c_df)
     \<and> list_all is_float (column (merged lg loc (hs_by by) (hs_per cocp)) ''complexity'')
     \<and> list_all is_float (column (merged lg loc (hs_by by) (hs_per cocp)) ''changes'')
     \<and> out = add_scores (merged lg loc (hs_by by) (hs_per cocp))"
proof -
  define b per where "b = hs_by by" and "per = hs_per cocp"
  define df where "df = merged lg loc b per"
  have sel1: "select lg (per @ [b]) =
      (if set (per @ [b]) \<subseteq> set (columns lg)
       then Inr (map (\<lambda>c. (c, column lg c)) (per @ [b])) else Inl KeyError)"
    by (simp add: select_def)
  have cols: "columns df = columns c_df @ [''changes'']"
    by (simp add: df_def c_df_def columns_merged)
  have sel2: "select df [''complexity'', ''changes''] =
      (if ''complexity'' \<in> set (columns c_df)
       then Inr [(''complexity'', column df ''complexity''), (''changes'', column df ''changes'')]
       else Inl KeyError)"
    by (simp add: select_def cols)
  have sc: "column [(''complexity'', xs), (''changes'', ys)] ''complexity'' = xs"
    "column [(''complexity'', xs), (''changes'', ys)] ''changes'' = ys" for xs ys
    by (simp_all add: column_def)
  have fin: "add_scores df =
      (let d1 = assign df ''complexity_score'' (score_column (column df ''complexity''));
           d2 = assign d1 ''changes_score'' (score_column (column df ''changes''))
       in assign d2 ''score''
            (map2 sum_cells (column d2 ''complexity_score'') (column d2 ''changes_score'')))"
    by (simp add: add_scores_def Let_def column_assign_other)
  have unf: "hot_spots lg loc by cocp =
      (case select lg (per @ [b]) of
         Inl e \<Rightarrow> Inl e
       | Inr sel \<Rightarrow>
           if b \<in> set per then Inl AttributeError
           else if b \<notin> set (columns c_df) then Inl KeyError
           else if ''changes'' \<in> set (columns c_df) then Inl KeyError
           else if \<not> distinct (columns c_df) then Inl ValueError
           else case select (map (\<lambda>(c, vs). (c, map (fillna (Num 0)) vs))
                       (merge_outer c_df b (change_counts sel))) [''complexity'', ''changes''] of
                  Inl e \<Rightarrow> Inl e
                | Inr input_df \<Rightarrow>
                    (case compute_score input_df of
                       Inl e \<Rightarrow> Inl e
                     | Inr sc \<Rightarrow>
                         let d0 = map (\<lambda>(c, vs). (c, map (fillna (Num 0)) vs))
                                    (merge_outer c_df b (change_counts sel));
                             d1 = assign d0 ''complexity_score'' (column sc ''complexity'');
                             d2 = assign d1 ''changes_score'' (column sc ''changes'')
                         in Inr (assign d2 ''score''
                              (map2 sum_cells (column d2 ''complexity_score'')
                                 (column d2 ''changes_score'')))))"
    unfolding hot_spots_def Let_def b_def per_def hs_by_def hs_per_def c_df_def ..
  have df: "map (\<lambda>(c, vs). (c, map (fillna (Num 0)) vs))
      (merge_outer c_df b (change_counts (map (\<lambda>c. (c, column lg c)) (per @ [b])))) = df"
    by (simp add: df_def merged_def hs_changes_def c_df_def)
  show ?thesis
    unfolding b_def [symmetric] per_def [symmetric] df_def [symmetric]
    unfolding unf sel1
    by (auto simp: df sel2 compute_score_two compute_score_two_ok sc fin Let_def simp del: set_append map_append split: sum.splits)
qed

lemma column_add_scores:
  "column (add_scores df) ''complexity_score'' = score_column (column df ''complexity'')"
  "column (add_scores df) ''changes_score'' = score_column (column df ''changes'')"
  "column (add_scores df) ''score''
     = map2 sum_cells (score_column (column df ''complexity'')) (score_column (column df ''changes''))"
  by (simp_all add: add_scores_def Let_def column_assign_other)

lemma column_add_scores_other:
  "c \<notin> {''complexity_score'', ''changes_score'', ''score''}
     \<Longrightarrow> column (add_scores df) c = column df c"
  by (simp add: add_scores_def Let_def column_assign_other)

lemma fillna_not_NaN [simp]: "fillna (Num 0) c \<noteq> NaN" "NaN \<noteq> fillna (Num 0) c"
  by (cases c; simp add: fillna_def)+

lemma merged_no_NaN: "NaN \<notin> set (column (merged lg loc b per) c)"
  by (auto simp: merged_def column_map_values)

lemma float_Num: "list_all is_float vs \<Longrightarrow> NaN \<notin> set vs \<Longrightarrow> vs = map Num (map num0 vs)"
proof (induction vs)
  case Nil
  then show ?case by simp
next
  case (Cons v vs)
  then show ?case by (cases v) auto
qed

lemma sum_cells_Num: "map2 sum_cells (map Num xs) (map Num ys) = map Num (map2 (+) xs ys)"
proof (induction xs arbitrary: ys)
  case Nil
  then show ?case by simp
next
  case (Cons x xs)
  then show ?case by (cases ys) auto
qed

lemma hot_spots_scores:
  assumes "hot_spots lg loc by cocp = Inr out"
  defines "cx \<equiv> map num0 (column out ''complexity'')"
    and "ch \<equiv> map num0 (column out ''changes'')"
  shows "column out ''complexity'' = map Num cx" and "column out ''changes'' = map Num ch"
    and "column out ''complexity_score'' = map Num (scaled cx)"
    and "column out ''changes_score'' = map Num (scaled ch)"
    and "column out ''score'' = map Num (map2 (+) (scaled cx) (scaled ch))"
proof -
  define df where "df = merged lg loc (hs_by by) (hs_per cocp)"
  from assms(1) have out: "out = add_scores df"
    and fx: "list_all is_float (column df ''complexity'')"
    and fh: "list_all is_float (column df ''changes'')"
    by (simp_all add: hot_spots_Inr df_def)
  have ox: "column out ''complexity'' = column df ''complexity''"
    and oh: "column out ''changes'' = column df ''changes''"
    by (simp_all add: out column_add_scores_other)
  show x: "column out ''complexity'' = map Num cx"
    unfolding cx_def ox using fx by (rule float_Num) (simp add: df_def merged_no_NaN)
  show h: "column out ''changes'' = map Num ch"
    unfolding ch_def oh using fh by (rule float_Num) (simp add: df_def merged_no_NaN)
  show sx: "column out ''complexity_score'' = map Num (scaled cx)"
    unfolding cx_def ox using fx by (simp add: out column_add_scores score_column_scaled)
  show sh: "column out ''changes_score'' = map Num (scaled ch)"
    unfolding ch_def oh using fh by (simp add: out column_add_scores score_column_scaled)
  have "column out ''score''
      = map2 sum_cells (column out ''complexity_score'') (column out ''changes_score'')"
    by (simp add: out column_add_scores)
  also have "\<dots> = map Num (map2 (+) (scaled cx) (scaled ch))"
    unfolding sx sh by (rule sum_cells_Num)
  finally show "column out ''score'' = map Num (map2 (+) (scaled cx) (scaled ch))" .
qed


lemmas hot_spots_eval =
  hot_spots_def fixture_changes_def fixture_loc_def stats_loc_def stats_changes_def select_def
  columns_def column_def rows_of_def nrows_def rename_column_def change_counts_def
  value_counts_def merge_outer_def fillna_def compute_score_def score_column_def col_min_def
  col_max_def

lemma stats_hot_spots:
  "hot_spots stats_changes stats_loc None None =
     Inr [(''language'', [Str ''Python'']), (''path'', [Str ''stats.py'']),
          (''blank'', [Num 28]), (''comment'', [Num 84]),
          (''complexity'', [Num 100]), (''changes'', [Num 1]),
          (''complexity_score'', [Num 0]), (''changes_score'', [Num 0]), (''score'', [Num 0])]"
  by (simp add: hot_spots_eval)


subsection \<open>Hot spots\<close>




lemma collect_Inl: "collect xs = Inl e \<Longrightarrow> Inl e \<in> set xs"
  by (induction xs rule: collect.induct) (auto split: sum.splits)

lemma astype_float_error: "astype_float c = Inl e \<Longrightarrow> e = ValueError \<or> e = TypeError"
  by (cases c) auto

lemma compute_score_error:
  assumes "compute_score df = Inl e"
  shows "e = ValueError \<or> e = TypeError"
proof -
  from assms have "collect (map (\<lambda>(c, vs). case collect (map astype_float vs) of
        Inl e \<Rightarrow> Inl e | Inr ws \<Rightarrow> Inr (c, ws)) df) = Inl e"
    by (auto simp: compute_score_def split: sum.splits)
  then obtain c vs where "collect (map astype_float vs) = Inl e"
    by (auto dest!: collect_Inl split: sum.splits)
  then obtain v where "astype_float v = Inl e"
    by (auto dest!: collect_Inl)
  then show ?thesis
    by (rule astype_float_error)
qed

lemma hot_spots_error:
  assumes "hot_spots lg loc by cocp = Inl e"
  shows "e \<noteq> ZeroDivisionError"
proof
  assume "e = ZeroDivisionError"
  with assms have z: "hot_spots lg loc by cocp = Inl ZeroDivisionError"
    by simp
  have "compute_score df \<noteq> Inl ZeroDivisionError" for df
    using compute_score_error [of df ZeroDivisionError] by auto
  with z show False
    unfolding hot_spots_def Let_def select_def
    by (auto split: if_splits sum.splits)
qed

lemma scaled_all_equal:
  assumes "list_all (\<lambda>x. x = a) xs"
  shows "scaled xs = replicate (length xs) 0"
proof (cases "xs = []")
  case True
  then show ?thesis by (simp add: scaled_def)
next
  case False
  with assms have "set xs = {a}"
    by (cases xs) (auto simp: list_all_iff)
  then show ?thesis
    by (intro scaled_constant) simp
qed

lemma constant_column_scores_zero:
  assumes "list_all (\<lambda>c. c = v) (map Num xs)"
  shows "list_all (\<lambda>c. c = Num 0) (map Num (scaled xs))"
proof -
  from assms have "list_all (\<lambda>x. x = num0 v) xs"
    by (auto simp: list_all_iff)
  then have "scaled xs = replicate (length xs) 0"
    by (rule scaled_all_equal)
  then show ?thesis
    by (simp add: list_all_iff)
qed

text \<open>
  C8. \<^verbatim>\<open>hot_spots\<close> never raises a division-by-zero error. Whenever it returns a table in
  which the \<^verbatim>\<open>complexity\<close> column is constant (all its cells are equal), the
  \<^verbatim>\<open>complexity_score\<close> of every row is 0, and likewise for \<^verbatim>\<open>changes\<close> and
  \<^verbatim>\<open>changes_score\<close>; and \<^verbatim>\<open>compute_score\<close> returns on any two float columns, constant
  or not.
\<close>

theorem hot_spots_constant_column_scores_zero:
  "hot_spots lg loc by cocp \<noteq> Inl ZeroDivisionError
   \<and> (\<forall>out. hot_spots lg loc by cocp = Inr out \<longrightarrow>
        (\<forall>v. list_all (\<lambda>c. c = v) (column out ''complexity'')
           \<longrightarrow> list_all (\<lambda>c. c = Num 0) (column out ''complexity_score''))
        \<and> (\<forall>v. list_all (\<lambda>c. c = v) (column out ''changes'')
           \<longrightarrow> list_all (\<lambda>c. c = Num 0) (column out ''changes_score'')))
   \<and> (list_all is_float va \<and> list_all is_float vb \<longrightarrow>
        compute_score [(''complexity'', va), (''changes'', vb)]
          = Inr [(''complexity'', score_column va), (''changes'', score_column vb)])"
proof (intro conjI allI impI)
  show "hot_spots lg loc by cocp \<noteq> Inl ZeroDivisionError"
    using hot_spots_error [of lg loc "by" cocp ZeroDivisionError] by auto
next
  fix out v
  assume out: "hot_spots lg loc by cocp = Inr out"
    and c: "list_all (\<lambda>c. c = v) (column out ''complexity'')"
  note s = hot_spots_scores [OF out]
  from c show "list_all (\<lambda>c. c = Num 0) (column out ''complexity_score'')"
    unfolding s(3) by (subst (asm) s(1)) (rule constant_column_scores_zero)
next
  fix out v
  assume out: "hot_spots lg loc by cocp = Inr out"
    and c: "list_all (\<lambda>c. c = v) (column out ''changes'')"
  note s = hot_spots_scores [OF out]
  from c show "list_all (\<lambda>c. c = Num 0) (column out ''changes_score'')"
    unfolding s(4) by (subst (asm) s(2)) (rule constant_column_scores_zero)
next
  assume "list_all is_float va \<and> list_all is_float vb"
  then show "compute_score [(''complexity'', va), (''changes'', vb)]
          = Inr [(''complexity'', score_column va), (''changes'', score_column vb)]"
    by (simp add: compute_score_two_ok)
qed

text \<open>
  One path of complexity 100, changed once: both columns are constant, both scores are 0
  and nothing is raised.
\<close>

theorem hot_spots_constant_column_scores_zero_witness:
  "hot_spots stats_changes stats_loc None None =
     Inr [(''language'', [Str ''Python'']), (''path'', [Str ''stats.py'']),
          (''blank'', [Num 28]), (''comment'', [Num 84]),
          (''complexity'', [Num 100]), (''changes'', [Num 1]),
          (''complexity_score'', [Num 0]), (''changes_score'', [Num 0]), (''score'', [Num 0])]
   \<and> compute_score [(''complexity'', [Num 100]), (''changes'', [Num 1])]
     = Inr [(''complexity'', [Num 0]), (''changes'', [Num 0])]"
  using hot_spots_constant_column_scores_zero [of stats_changes stats_loc None None
      "[Num 100]" "[Num 1]"]
  by (simp add: stats_hot_spots) (simp add: score_column_def col_min_def col_max_def fillna_def)
lemma value_counts_not_NaN: "(v, n) \<in> set (value_counts vs) \<Longrightarrow> v \<noteq> NaN"
  by (auto simp: value_counts_def)

lemma column_map_prefix:
  "c \<in> set (columns df) \<Longrightarrow>
     column (map (\<lambda>(c, vs). (c, g c vs)) df @ rest) c = g c (column df c)"
  by (induction df) (auto simp: column_def)

lemma column_merge_outer:
  assumes "c \<in> set (columns c_df)"
  shows "column (merge_outer c_df b ch_df) c
    = column c_df c @
        (if c = b then map fst (filter (\<lambda>(v, n). v \<notin> set (column c_df b)) ch_df)
         else replicate (length (filter (\<lambda>(v, n). v \<notin> set (column c_df b)) ch_df)) NaN)"
  unfolding merge_outer_def Let_def
  using assms
  by (rule column_map_prefix
      [where g = "\<lambda>c vs. vs @ (if c = b then map fst (filter (\<lambda>(v, n). v \<notin> set (column c_df b)) ch_df)
         else replicate (length (filter (\<lambda>(v, n). v \<notin> set (column c_df b)) ch_df)) NaN)"])

lemma column_merge_outer_changes:
  assumes "''changes'' \<notin> set (columns c_df)"
  shows "column (merge_outer c_df b ch_df) ''changes''
    = map (\<lambda>k. case map_of ch_df k of Some n \<Rightarrow> Num (real n) | None \<Rightarrow> NaN) (column c_df b)
      @ map (\<lambda>(v, n). Num (real n)) (filter (\<lambda>(v, n). v \<notin> set (column c_df b)) ch_df)"
proof -
  have "''changes'' \<notin> set (columns (map (\<lambda>(c, vs). (c, g c vs)) c_df))" for g :: "string \<Rightarrow> cell list \<Rightarrow> cell list"
    using assms by simp
  then show ?thesis
    unfolding merge_outer_def Let_def
    by (subst column_absent_append) (simp_all add: column_def)
qed

lemma length_column_rename:
  assumes "wf_frame df" and "c \<in> set (columns (rename_column df old new))"
  shows "length (column (rename_column df old new) c) = nrows df"
proof -
  from assms(2) obtain vs0 where "(c, vs0) \<in> set (rename_column df old new)"
    by (auto simp: columns_def)
  then obtain vs where "map_of (rename_column df old new) c = Some vs"
    by (auto dest: weak_map_of_SomeI)
  moreover from this have "\<exists>c'. (c', vs) \<in> set df"
    by (auto simp: rename_column_def dest!: map_of_SomeD)
  ultimately show ?thesis
    using assms(1) by (auto simp: column_def wf_frame_def list_all_iff)
qed

text \<open>
  C10. A value of the \<^verbatim>\<open>by\<close> column that the change counts have and the size table has
  not gives a row of the returned table (the \<^verbatim>\<open>by\<close> column is not one of the three score
  columns): the row holds the value in the \<^verbatim>\<open>by\<close> column and its count in \<^verbatim>\<open>changes\<close>,
  and 0.0 in every other column that comes from the size table, whatever the column holds
  in the other rows.
\<close>

theorem hot_spots_row_absent_from_size_table:
  assumes "wf_frame loc" and "hot_spots lg loc by cocp = Inr out"
    and "(v, n) \<in> set (hs_changes lg (hs_by by) (hs_per cocp))"
    and "v \<notin> set (column (rename_column loc ''code'' ''complexity'') (hs_by by))"
    and "hs_by by \<notin> {''complexity_score'', ''changes_score'', ''score''}"
  shows "\<exists>i. i < length (column out (hs_by by)) \<and> column out (hs_by by) ! i = v
    \<and> i < length (column out ''changes'') \<and> column out ''changes'' ! i = Num (real n)
    \<and> (\<forall>c \<in> set (columns (rename_column loc ''code'' ''complexity'')).
          c \<noteq> hs_by by \<and> c \<notin> {''complexity_score'', ''changes_score'', ''score''}
          \<longrightarrow> i < length (column out c) \<and> column out c ! i = Num 0)"
proof -
  define b per where "b = hs_by by" and "per = hs_per cocp"
  define c_df where "c_df = rename_column loc ''code'' ''complexity''"
  define ch where "ch = hs_changes lg b per"
  define extra where "extra = filter (\<lambda>(v, n). v \<notin> set (column c_df b)) ch"
  define df where "df = merged lg loc b per"
  note r = hot_spots_Inr [THEN iffD1, OF assms(2), folded b_def per_def c_df_def, folded df_def]
  have b_in: "b \<in> set (columns c_df)" and no_changes: "''changes'' \<notin> set (columns c_df)"
    and out: "out = add_scores df"
    using r by simp_all
  have len: "length (column c_df c) = nrows loc" if "c \<in> set (columns c_df)" for c
    using assms(1) that unfolding c_df_def by (rule length_column_rename)
  have "(v, n) \<in> set extra"
    using assms(3,4) by (simp add: extra_def ch_def b_def per_def c_df_def)
  then obtain j where j: "j < length extra" "extra ! j = (v, n)"
    by (auto simp: in_set_conv_nth)
  have v: "v \<noteq> NaN"
    using assms(3) by (auto simp: hs_changes_def change_counts_def dest: value_counts_not_NaN)
  have dfc: "column df c = map (fillna (Num 0))
      (column c_df c @ (if c = b then map fst extra else replicate (length extra) NaN))"
    if "c \<in> set (columns c_df)" for c
    using that
    by (simp add: df_def merged_def column_map_values column_merge_outer c_df_def extra_def ch_def)
  have dfh: "column df ''changes'' = map (fillna (Num 0))
      (map (\<lambda>k. case map_of ch k of Some n \<Rightarrow> Num (real n) | None \<Rightarrow> NaN) (column c_df b)
       @ map (\<lambda>(v, n). Num (real n)) extra)"
    using no_changes
    by (simp add: df_def merged_def column_map_values column_merge_outer_changes c_df_def
        extra_def ch_def)
  let ?i = "nrows loc + j"
  have ob: "column out b = column df b"
    using assms(5) by (simp add: out b_def column_add_scores_other)
  have oh: "column out ''changes'' = column df ''changes''"
    by (simp add: out column_add_scores_other)
  have oc: "column out c = column df c"
    if "c \<notin> {''complexity_score'', ''changes_score'', ''score''}" for c
    using that by (simp add: out column_add_scores_other)
  have 1: "?i < length (column out b) \<and> column out b ! ?i = v"
    using j v by (simp add: ob dfc b_in len nth_append fillna_def split: cell.splits)
  have 2: "?i < length (column out ''changes'') \<and> column out ''changes'' ! ?i = Num (real n)"
    using j by (simp add: oh dfh b_in len nth_append fillna_def)
  have 3: "?i < length (column out c) \<and> column out c ! ?i = Num 0"
    if "c \<in> set (columns c_df)" "c \<noteq> b"
      "c \<notin> {''complexity_score'', ''changes_score'', ''score''}" for c
    using j that by (simp add: oc dfc len nth_append fillna_def)
  show ?thesis
    unfolding b_def [symmetric] c_df_def [symmetric]
    using 1 2 3 by blast
qed

lemma wf_stats_loc: "wf_frame stats_loc"
  by (simp add: wf_frame_def stats_loc_def columns_def nrows_def)

lemma stats_fixture_hot_spots:
  "hot_spots fixture_changes stats_loc None None =
     Inr [(''language'', [Str ''Python'', Num 0]),
          (''path'', [Str ''stats.py'', Str ''requirements.txt'']),
          (''blank'', [Num 28, Num 0]), (''comment'', [Num 84, Num 0]),
          (''complexity'', [Num 100, Num 0]), (''changes'', [Num 2, Num 1]),
          (''complexity_score'', [Num 1, Num 0]), (''changes_score'', [Num 1, Num 0]),
          (''score'', [Num 2, Num 0])]"
  by (simp add: hot_spots_eval)

lemma stats_fixture_changes:
  "hs_changes fixture_changes (hs_by None) (hs_per None)
     = [(Str ''stats.py'', 2), (Str ''requirements.txt'', 1)]"
  by (simp add: hs_changes_def hs_by_def hs_per_def change_counts_def value_counts_def
      fixture_changes_def column_def rows_of_def nrows_def)

text \<open>
  The size table holds \<^verbatim>\<open>stats.py\<close> only and the log also changes
  \<^verbatim>\<open>requirements.txt\<close>: the second row of the result is the row of
  \<^verbatim>\<open>requirements.txt\<close>, with 0.0 as its language.
\<close>

theorem hot_spots_row_absent_from_size_table_witness:
  "wf_frame stats_loc
   \<and> hot_spots fixture_changes stats_loc None None =
     Inr [(''language'', [Str ''Python'', Num 0]),
          (''path'', [Str ''stats.py'', Str ''requirements.txt'']),
          (''blank'', [Num 28, Num 0]), (''comment'', [Num 84, Num 0]),
          (''complexity'', [Num 100, Num 0]), (''changes'', [Num 2, Num 1]),
          (''complexity_score'', [Num 1, Num 0]), (''changes_score'', [Num 1, Num 0]),
          (''score'', [Num 2, Num 0])]
   \<and> (Str ''requirements.txt'', 1) \<in> set (hs_changes fixture_changes (hs_by None) (hs_per None))
   \<and> Str ''requirements.txt'' \<notin> set (column (rename_column stats_loc ''code'' ''complexity'')
         (hs_by None))
   \<and> hs_by None \<notin> {''complexity_score'', ''changes_score'', ''score''}"
proof -
  have 3: "(Str ''requirements.txt'', 1) \<in> set (hs_changes fixture_changes (hs_by None) (hs_per None))"
    by (simp add: stats_fixture_changes)
  have 4: "Str ''requirements.txt'' \<notin> set (column (rename_column stats_loc ''code'' ''complexity'')
         (hs_by None))"
    by (simp add: hs_by_def stats_loc_def rename_column_def column_def)
  have 5: "hs_by None \<notin> {''complexity_score'', ''changes_score'', ''score''}"
    by (simp add: hs_by_def)
  show ?thesis
    using hot_spots_row_absent_from_size_table [OF wf_stats_loc stats_fixture_hot_spots 3 4 5]
      wf_stats_loc stats_fixture_hot_spots 3 4 5
    by simp
qed

end
